theory Spec2Isabelle
  imports Main
begin

section \<open>Data model of the word linkage zone\<close>

text \<open>
  The annotator (the spaCy pipeline held in \<open>self.nlp\<close>) is external to the repository.
  What \<open>process_corpus\<close> reads of it is, for every token of a sentence, the four
  attributes \<open>token.text\<close>, \<open>token.i\<close>, \<open>token.dep_\<close> and \<open>token.head.i\<close>. A token is
  a record of these four values, a sentence is the list of its tokens in iteration order,
  and the annotator is a function from a text to the list \<open>doc.sents\<close>.
  Strings are byte sequences (the UTF-8 form of the Python \<open>str\<close>).
\<close>

record token =
  tok_text :: string
  tok_i :: int
  tok_dep :: string
  tok_head_i :: int

type_synonym annotator = "string \<Rightarrow> token list list"

text \<open>The dictionaries appended to \<open>self.word_data\<close> and \<open>self.relation_data\<close>.\<close>

record word_record =
  text_number :: nat
  sentence_number :: nat
  word_number :: nat
  word_form :: string

record relation_record =
  rel_text_number :: nat
  rel_sentence_number :: nat
  word_number1 :: nat
  word_number2 :: nat
  relation :: string
  dep_label :: string

text \<open>The attributes of a \<open>WordLinkageZone\<close> instance.\<close>

record wlz =
  language :: string
  nlp :: annotator
  word_data :: "word_record list"
  relation_data :: "relation_record list"

datatype error = ValueError string | KeyError int | OSError | SystemExit

section \<open>process_corpus\<close>

text \<open>
  The loop \<open>for word_index, token in enumerate(sent)\<close>: it appends one dictionary to
  \<open>word_list\<close> and stores \<open>word_index_map[token.i] = word_number\<close>, a later store under
  the same key replacing an earlier one.
\<close>

fun word_loop ::
  "nat \<Rightarrow> nat \<Rightarrow> nat \<Rightarrow> token list \<Rightarrow> word_record list \<Rightarrow> (int \<rightharpoonup> nat)
     \<Rightarrow> word_record list \<times> (int \<rightharpoonup> nat)" where
  "word_loop text_index sent_index word_index [] word_list word_index_map =
     (word_list, word_index_map)"
| "word_loop text_index sent_index word_index (t # ts) word_list word_index_map =
     word_loop text_index sent_index (Suc word_index) ts
       (word_list @ [\<lparr>text_number = text_index + 1, sentence_number = sent_index + 1,
                      word_number = word_index + 1, word_form = tok_text t\<rparr>])
       (word_index_map(tok_i t \<mapsto> word_index + 1))"

text \<open>
  The loop \<open>for token in sent\<close> over the dependency relations. A subscript
  \<open>word_index_map[k]\<close> on a missing key raises \<open>KeyError\<close> in Python, which is a branch
  of the model.
\<close>

fun relation_loop ::
  "nat \<Rightarrow> nat \<Rightarrow> (int \<rightharpoonup> nat) \<Rightarrow> token list \<Rightarrow> relation_record list
     \<Rightarrow> error + relation_record list" where
  "relation_loop text_index sent_index word_index_map [] rd = Inr rd"
| "relation_loop text_index sent_index word_index_map (t # ts) rd =
     (if word_index_map (tok_head_i t) \<noteq> None \<and> tok_dep t \<noteq> ''ROOT'' then
        (case word_index_map (tok_i t) of
           None \<Rightarrow> Inl (KeyError (tok_i t))
         | Some wn1 \<Rightarrow>
            (case word_index_map (tok_head_i t) of
               None \<Rightarrow> Inl (KeyError (tok_head_i t))
             | Some wn2 \<Rightarrow>
                relation_loop text_index sent_index word_index_map ts
                  (rd @ [\<lparr>rel_text_number = text_index + 1,
                          rel_sentence_number = sent_index + 1,
                          word_number1 = wn1, word_number2 = wn2,
                          relation = tok_dep t, dep_label = tok_dep t\<rparr>])))
      else relation_loop text_index sent_index word_index_map ts rd)"

text \<open>
  The body of \<open>for sent_index, sent in enumerate(doc.sents)\<close>: a fresh \<open>word_list\<close> and a
  fresh \<open>word_index_map\<close>, the word loop, \<open>self.word_data.extend(word_list)\<close>, then the
  relation loop.
\<close>

definition sentence_body :: "nat \<Rightarrow> nat \<Rightarrow> token list \<Rightarrow> wlz \<Rightarrow> error + wlz" where
  "sentence_body text_index sent_index sent b =
     (case word_loop text_index sent_index 0 sent [] Map.empty of
        (word_list, word_index_map) \<Rightarrow>
          (case relation_loop text_index sent_index word_index_map sent (relation_data b) of
             Inl e \<Rightarrow> Inl e
           | Inr rd \<Rightarrow>
               Inr (b\<lparr>word_data := word_data b @ word_list, relation_data := rd\<rparr>)))"

fun sent_loop :: "nat \<Rightarrow> nat \<Rightarrow> token list list \<Rightarrow> wlz \<Rightarrow> error + wlz" where
  "sent_loop text_index sent_index [] b = Inr b"
| "sent_loop text_index sent_index (sent # sents) b =
     (case sentence_body text_index sent_index sent b of
        Inl e \<Rightarrow> Inl e
      | Inr b' \<Rightarrow> sent_loop text_index (Suc sent_index) sents b')"

fun text_loop :: "nat \<Rightarrow> string list \<Rightarrow> wlz \<Rightarrow> error + wlz" where
  "text_loop text_index [] b = Inr b"
| "text_loop text_index (text # texts) b =
     (case sent_loop text_index 0 (nlp b text) b of
        Inl e \<Rightarrow> Inl e
      | Inr b' \<Rightarrow> text_loop (Suc text_index) texts b')"

definition process_corpus :: "wlz \<Rightarrow> string list \<Rightarrow> error + wlz" where
  "process_corpus b corpus = text_loop 0 corpus b"

section \<open>get_word_form\<close>

text \<open>
  The loop \<open>for word in self.word_data\<close> returns at the first dictionary whose three
  keys equal the arguments, and \<open>None\<close> after the loop. The arguments are any Python
  integers.
\<close>

fun get_word_form_loop :: "word_record list \<Rightarrow> int \<Rightarrow> int \<Rightarrow> int \<Rightarrow> string option" where
  "get_word_form_loop [] tn sn wn = None"
| "get_word_form_loop (word # rest) tn sn wn =
     (if int (text_number word) = tn \<and> int (sentence_number word) = sn \<and>
         int (word_number word) = wn
      then Some (word_form word)
      else get_word_form_loop rest tn sn wn)"

definition get_word_form :: "wlz \<Rightarrow> int \<Rightarrow> int \<Rightarrow> int \<Rightarrow> string option" where
  "get_word_form b tn sn wn = get_word_form_loop (word_data b) tn sn wn"

section \<open>generate_files\<close>

definition TAB :: char where
  "TAB = CHR 0x09"

definition NL :: char where
  "NL = CHR 0x0A"

text \<open>The decimal text of a non-negative integer, as an f-string renders it.\<close>

definition digit_char :: "nat \<Rightarrow> char" where
  "digit_char d = ''0123456789'' ! d"

fun str_nat :: "nat \<Rightarrow> string" where
  "str_nat n =
     (if n < 10 then [digit_char n] else str_nat (n div 10) @ [digit_char (n mod 10)])"

declare str_nat.simps [simp del]

text \<open>
  \<open>spacy.glossary.explain\<close> is a function of the spaCy library: it returns the entry of
  the glossary for a label and \<open>None\<close> for a label the glossary does not have. It is a
  parameter \<open>explain\<close> of the model. An f-string renders \<open>None\<close> as the text \<open>None\<close>.
\<close>

fun py_format :: "string option \<Rightarrow> string" where
  "py_format None = ''None''"
| "py_format (Some s) = s"

text \<open>
  The file system: the directories that exist and the content of each file. The
  operations of the model succeed; failures of the operating system (permissions, a full
  disk) are outside it. \<open>os.makedirs\<close> records the directory it is asked for.
\<close>

record fs =
  dirs :: "string set"
  files :: "string \<rightharpoonup> string"

definition path_exists :: "fs \<Rightarrow> string \<Rightarrow> bool" where
  "path_exists s p = (p \<in> dirs s \<or> files s p \<noteq> None)"

definition makedirs :: "fs \<Rightarrow> string \<Rightarrow> fs" where
  "makedirs s p = s\<lparr>dirs := insert p (dirs s)\<rparr>"

text \<open>\<open>os.path.join\<close> (POSIX) with a second component that is a plain file name.\<close>

definition path_join :: "string \<Rightarrow> string \<Rightarrow> string" where
  "path_join a b = (if a = [] \<or> last a = CHR ''/'' then a @ b else a @ ''/'' @ b)"

text \<open>
  A file opened with mode \<open>w\<close> starts empty and every \<open>f.write\<close> appends to it; the
  second argument of the two loops below is the content written so far.
\<close>

fun write_words :: "word_record list \<Rightarrow> string \<Rightarrow> string" where
  "write_words [] f = f"
| "write_words (word # rest) f =
     write_words rest
       (f @ (str_nat (text_number word) @ [TAB] @ str_nat (sentence_number word) @ [TAB] @
             str_nat (word_number word) @ [TAB] @ word_form word @ [NL]))"

fun write_relations ::
  "(string \<Rightarrow> string option) \<Rightarrow> relation_record list \<Rightarrow> string \<Rightarrow> string" where
  "write_relations explain [] f = f"
| "write_relations explain (rel # rest) f =
     (let description = py_format (explain (dep_label rel)) in
      write_relations explain rest
        (f @ (str_nat (rel_text_number rel) @ [TAB] @ str_nat (rel_sentence_number rel) @
              [TAB] @ str_nat (word_number1 rel) @ [TAB] @ str_nat (word_number2 rel) @
              [TAB] @ description @ [NL])))"

definition generate_files ::
  "(string \<Rightarrow> string option) \<Rightarrow> wlz \<Rightarrow> string \<Rightarrow> fs \<Rightarrow> fs" where
  "generate_files explain b output_dir s =
     (let s1 = (if \<not> path_exists s output_dir then makedirs s output_dir else s);
          file1_path = path_join output_dir ''words.txt'';
          s2 = s1\<lparr>files := (files s1)(file1_path \<mapsto>
                 write_words (word_data b)
                   ([] @ (''TextNumber'' @ [TAB] @ ''SentenceNumber'' @ [TAB] @
                          ''WordNumber'' @ [TAB] @ ''WordForm'' @ [NL])))\<rparr>;
          file2_path = path_join output_dir ''relations.txt'';
          s3 = s2\<lparr>files := (files s2)(file2_path \<mapsto>
                 write_relations explain (relation_data b)
                   ([] @ (''TextNumber'' @ [TAB] @ ''SentenceNumber'' @ [TAB] @
                          ''WordNumber1'' @ [TAB] @ ''WordNumber2'' @ [TAB] @
                          ''Relation'' @ [NL])))\<rparr>
      in s3)"

section \<open>process_corpus as a step of a program\<close>

text \<open>
  A program that uses the class runs in a state made of the instance and of the file
  system. The body of \<open>process_corpus\<close> has no statement that opens, creates or writes
  a file: a call of it is a step on the instance.
\<close>

record program_state =
  self :: wlz
  disk :: fs

definition call_process_corpus :: "program_state \<Rightarrow> string list \<Rightarrow> error + program_state" where
  "call_process_corpus st corpus =
     (case process_corpus (self st) corpus of
        Inl e \<Rightarrow> Inl e
      | Inr b' \<Rightarrow> Inr (st\<lparr>self := b'\<rparr>))"

section \<open>Construction\<close>

text \<open>
  \<open>spacy.load\<close> and \<open>spacy.cli.download\<close> belong to the spaCy library. The model of
  their environment is the table of the installed models and the table of the models a
  download can fetch: \<open>spacy.load\<close> raises \<open>OSError\<close> for a model that is not installed,
  and a download that cannot fetch the model exits. The calls made to the library and to
  \<open>print\<close> are recorded in order.
\<close>

record env =
  installed :: "string \<rightharpoonup> annotator"
  remote :: "string \<rightharpoonup> annotator"

datatype call = Load string | Download string | Print string

definition download :: "env \<Rightarrow> string \<Rightarrow> env option" where
  "download e model_name =
     (case remote e model_name of
        None \<Rightarrow> None
      | Some a \<Rightarrow> Some (e\<lparr>installed := (installed e)(model_name \<mapsto> a)\<rparr>))"

definition model_name_map :: "(string \<times> string) list" where
  "model_name_map = [(''uk'', ''uk_core_news_lg'')]"

definition load_language_model ::
  "env \<Rightarrow> string \<Rightarrow> (error + annotator) \<times> env \<times> call list" where
  "load_language_model e lang =
     (case map_of model_name_map lang of
        None \<Rightarrow> (Inl (ValueError (''Unsupported language: '' @ lang)), e, [])
      | Some model_name \<Rightarrow>
          (case installed e model_name of
             Some a \<Rightarrow> (Inr a, e, [Load model_name])
           | None \<Rightarrow>
               (let msg = ''Downloading spaCy model for '' @ lang @ '': '' @ model_name in
                case download e model_name of
                  None \<Rightarrow>
                    (Inl SystemExit, e, [Load model_name, Print msg, Download model_name])
                | Some e' \<Rightarrow>
                    (case installed e' model_name of
                       Some a \<Rightarrow>
                         (Inr a, e',
                          [Load model_name, Print msg, Download model_name,
                           Load model_name])
                     | None \<Rightarrow>
                         (Inl OSError, e',
                          [Load model_name, Print msg, Download model_name,
                           Load model_name])))))"

text \<open>\<open>__init__\<close>: an exception of \<open>load_language_model\<close> leaves no instance.\<close>

definition init :: "env \<Rightarrow> string \<Rightarrow> (error + wlz) \<times> env \<times> call list" where
  "init e lang =
     (case load_language_model e lang of
        (Inl err, e', calls) \<Rightarrow> (Inl err, e', calls)
      | (Inr a, e', calls) \<Rightarrow>
          (Inr \<lparr>language = lang, nlp = a, word_data = [], relation_data = []\<rparr>,
           e', calls))"

section \<open>What the tables are expected to hold\<close>

text \<open>
  The Word Records of one sentence as the specification describes them: the token at
  position \<open>n\<close> (counted from 0) gets word number \<open>n + 1\<close>.
\<close>

definition sent_words :: "nat \<Rightarrow> nat \<Rightarrow> token list \<Rightarrow> word_record list" where
  "sent_words d s sent =
     map (\<lambda>n. \<lparr>text_number = d, sentence_number = s, word_number = n + 1,
                word_form = tok_text (sent ! n)\<rparr>) [0..<length sent]"

text \<open>The addressing map of a sentence: what the word loop leaves in \<open>word_index_map\<close>.\<close>

definition address_map :: "token list \<Rightarrow> (int \<rightharpoonup> nat)" where
  "address_map sent = snd (word_loop 0 0 0 sent [] Map.empty)"

text \<open>
  The Relation Records of one sentence under an addressing map \<open>m\<close>: one for every token
  whose head is addressed by \<open>m\<close> and whose label is not the root marker, in token order.
\<close>

definition sent_relations ::
  "nat \<Rightarrow> nat \<Rightarrow> (int \<rightharpoonup> nat) \<Rightarrow> token list \<Rightarrow> relation_record list" where
  "sent_relations d s m sent =
     map (\<lambda>t. \<lparr>rel_text_number = d, rel_sentence_number = s,
                word_number1 = the (m (tok_i t)), word_number2 = the (m (tok_head_i t)),
                relation = tok_dep t, dep_label = tok_dep t\<rparr>)
       (filter (\<lambda>t. m (tok_head_i t) \<noteq> None \<and> tok_dep t \<noteq> ''ROOT'') sent)"

definition doc_words :: "nat \<Rightarrow> token list list \<Rightarrow> word_record list" where
  "doc_words d sents =
     concat (map (\<lambda>(j, sent). sent_words d (j + 1) sent) (enumerate 0 sents))"

definition doc_relations :: "nat \<Rightarrow> token list list \<Rightarrow> relation_record list" where
  "doc_relations d sents =
     concat (map (\<lambda>(j, sent). sent_relations d (j + 1) (address_map sent) sent)
       (enumerate 0 sents))"

definition corpus_words :: "annotator \<Rightarrow> string list \<Rightarrow> word_record list" where
  "corpus_words a corpus =
     concat (map (\<lambda>(k, text). doc_words (k + 1) (a text)) (enumerate 0 corpus))"

definition corpus_relations :: "annotator \<Rightarrow> string list \<Rightarrow> relation_record list" where
  "corpus_relations a corpus =
     concat (map (\<lambda>(k, text). doc_relations (k + 1) (a text)) (enumerate 0 corpus))"

text \<open>
  The builders a program can hold: a new instance has two empty tables, and every
  \<open>process_corpus\<close> call that returns leads from one builder to the next.
\<close>

inductive reachable :: "wlz \<Rightarrow> bool" where
  fresh: "word_data b = [] \<Longrightarrow> relation_data b = [] \<Longrightarrow> reachable b"
| call: "reachable b \<Longrightarrow> process_corpus b corpus = Inr b' \<Longrightarrow> reachable b'"

code_pred reachable .

text \<open>
  Address validity of a Relation Record against a list of Word Records: its dependent and
  its head are each the word number of a Word Record with the same text number and the
  same sentence number.
\<close>

definition address_valid :: "word_record list \<Rightarrow> relation_record \<Rightarrow> bool" where
  "address_valid ws r =
     ((\<exists>w \<in> set ws. text_number w = rel_text_number r \<and>
         sentence_number w = rel_sentence_number r \<and> word_number w = word_number1 r) \<and>
      (\<exists>w \<in> set ws. text_number w = rel_text_number r \<and>
         sentence_number w = rel_sentence_number r \<and> word_number w = word_number2 r))"

text \<open>A line of a tab-delimited file: the fields separated by tabs, then a newline.\<close>

fun tab_row :: "string list \<Rightarrow> string" where
  "tab_row [] = [NL]"
| "tab_row [x] = x @ [NL]"
| "tab_row (x # y # zs) = x @ [TAB] @ tab_row (y # zs)"

text \<open>
  The line of a Word Record and the line of a Relation Record as the specification
  describes them: the fields in column order, the last field of a relation being what
  the f-string makes of the gloss the resolver returns.
\<close>

definition word_row :: "word_record \<Rightarrow> string" where
  "word_row w =
     tab_row [str_nat (text_number w), str_nat (sentence_number w),
              str_nat (word_number w), word_form w]"

definition relation_row :: "(string \<Rightarrow> string option) \<Rightarrow> relation_record \<Rightarrow> string" where
  "relation_row explain r =
     tab_row [str_nat (rel_text_number r), str_nat (rel_sentence_number r),
              str_nat (word_number1 r), str_nat (word_number2 r),
              (case explain (dep_label r) of Some gloss \<Rightarrow> gloss | None \<Rightarrow> ''None'')]"

section \<open>Sample inputs\<close>

text \<open>
  The parse of the sentence \<open>The cat sleeps.\<close>: the verb is the root (its head is itself),
  the other three tokens depend on it or on the noun.
\<close>

definition cat_sentence :: "token list" where
  "cat_sentence =
     [\<lparr>tok_text = ''The'', tok_i = 0, tok_dep = ''det'', tok_head_i = 1\<rparr>,
      \<lparr>tok_text = ''cat'', tok_i = 1, tok_dep = ''nsubj'', tok_head_i = 2\<rparr>,
      \<lparr>tok_text = ''sleeps'', tok_i = 2, tok_dep = ''ROOT'', tok_head_i = 2\<rparr>,
      \<lparr>tok_text = ''.'', tok_i = 3, tok_dep = ''punct'', tok_head_i = 2\<rparr>]"

text \<open>A sentence whose second token has a head that is no token of the sentence.\<close>

definition stray_sentence :: "token list" where
  "stray_sentence =
     [\<lparr>tok_text = ''Hi'', tok_i = 0, tok_dep = ''ROOT'', tok_head_i = 0\<rparr>,
      \<lparr>tok_text = ''there'', tok_i = 1, tok_dep = ''dep'', tok_head_i = 7\<rparr>,
      \<lparr>tok_text = ''!'', tok_i = 2, tok_dep = ''punct'', tok_head_i = 0\<rparr>]"

definition sample_nlp :: annotator where
  "sample_nlp text =
     (if text = ''The cat sleeps.'' then [cat_sentence]
      else if text = ''Hi there!'' then [stray_sentence]
      else [])"

definition sample_builder :: wlz where
  "sample_builder = \<lparr>language = ''uk'', nlp = sample_nlp, word_data = [], relation_data = []\<rparr>"

text \<open>The builder after \<open>process_corpus(["The cat sleeps."])\<close> on a new instance.\<close>

definition cat_builder :: wlz where
  "cat_builder =
     \<lparr>language = ''uk'', nlp = sample_nlp,
      word_data =
        [\<lparr>text_number = 1, sentence_number = 1, word_number = 1, word_form = ''The''\<rparr>,
         \<lparr>text_number = 1, sentence_number = 1, word_number = 2, word_form = ''cat''\<rparr>,
         \<lparr>text_number = 1, sentence_number = 1, word_number = 3, word_form = ''sleeps''\<rparr>,
         \<lparr>text_number = 1, sentence_number = 1, word_number = 4, word_form = ''.''\<rparr>],
      relation_data =
        [\<lparr>rel_text_number = 1, rel_sentence_number = 1, word_number1 = 1, word_number2 = 2,
          relation = ''det'', dep_label = ''det''\<rparr>,
         \<lparr>rel_text_number = 1, rel_sentence_number = 1, word_number1 = 2, word_number2 = 3,
          relation = ''nsubj'', dep_label = ''nsubj''\<rparr>,
         \<lparr>rel_text_number = 1, rel_sentence_number = 1, word_number1 = 4, word_number2 = 3,
          relation = ''punct'', dep_label = ''punct''\<rparr>]\<rparr>"

text \<open>That builder after a second call, \<open>process_corpus(["Hi there!"])\<close>.\<close>

definition cat_hi_builder :: wlz where
  "cat_hi_builder =
     cat_builder
       \<lparr>word_data := word_data cat_builder @
          [\<lparr>text_number = 1, sentence_number = 1, word_number = 1, word_form = ''Hi''\<rparr>,
           \<lparr>text_number = 1, sentence_number = 1, word_number = 2, word_form = ''there''\<rparr>,
           \<lparr>text_number = 1, sentence_number = 1, word_number = 3, word_form = ''!''\<rparr>],
        relation_data := relation_data cat_builder @
          [\<lparr>rel_text_number = 1, rel_sentence_number = 1, word_number1 = 3,
            word_number2 = 1, relation = ''punct'', dep_label = ''punct''\<rparr>]\<rparr>"

text \<open>
  A text with a line break: the annotator makes a token of the line break, with the
  line break as its form.
\<close>

definition break_sentence :: "token list" where
  "break_sentence =
     [\<lparr>tok_text = ''Hi'', tok_i = 0, tok_dep = ''ROOT'', tok_head_i = 0\<rparr>,
      \<lparr>tok_text = [NL], tok_i = 1, tok_dep = ''dep'', tok_head_i = 0\<rparr>]"

definition break_nlp :: annotator where
  "break_nlp text = (if text = ''Hi'' @ [NL] then [break_sentence] else [])"

definition break_builder :: wlz where
  "break_builder =
     \<lparr>language = ''uk'', nlp = break_nlp,
      word_data =
        [\<lparr>text_number = 1, sentence_number = 1, word_number = 1, word_form = ''Hi''\<rparr>,
         \<lparr>text_number = 1, sentence_number = 1, word_number = 2, word_form = [NL]\<rparr>],
      relation_data =
        [\<lparr>rel_text_number = 1, rel_sentence_number = 1, word_number1 = 2, word_number2 = 1,
          relation = ''dep'', dep_label = ''dep''\<rparr>]\<rparr>"

text \<open>An environment in which the Ukrainian model is installed.\<close>

definition sample_env :: env where
  "sample_env = \<lparr>installed = [''uk_core_news_lg'' \<mapsto> sample_nlp], remote = Map.empty\<rparr>"

text \<open>A glossary with two entries.\<close>

definition sample_explain :: "string \<Rightarrow> string option" where
  "sample_explain label =
     (if label = ''det'' then Some ''determiner''
      else if label = ''nsubj'' then Some ''nominal subject''
      else None)"

definition empty_fs :: fs where
  "empty_fs = \<lparr>dirs = {}, files = Map.empty\<rparr>"

section \<open>The loops of process_corpus, as list comprehensions\<close>

lemma word_loop_fst_enum:
  "fst (word_loop ti si wi ts wl m) =
     wl @ map (\<lambda>(n, t). \<lparr>text_number = ti + 1, sentence_number = si + 1,
                          word_number = n + 1, word_form = tok_text t\<rparr>) (enumerate wi ts)"
  by (induction ts arbitrary: wi wl m) auto

lemma enumerate_nth: "enumerate 0 xs = map (\<lambda>n. (n, xs ! n)) [0..<length xs]"
  by (rule nth_equalityI) (simp_all add: nth_enumerate_eq)

lemma word_loop_fst:
  "fst (word_loop ti si 0 ts [] m) = sent_words (ti + 1) (si + 1) ts"
  by (simp add: word_loop_fst_enum enumerate_nth sent_words_def)

lemma word_loop_snd_other:
  "x \<notin> tok_i ` set ts \<Longrightarrow> snd (word_loop ti si wi ts wl m) x = m x"
  by (induction ts arbitrary: wi wl m) auto

lemma word_loop_snd_range:
  "snd (word_loop ti si wi ts wl m) x = Some v \<Longrightarrow>
     m x = Some v \<or> (wi < v \<and> v \<le> wi + length ts)"
proof (induction ts arbitrary: wi wl m)
  case Nil
  then show ?case by simp
next
  case (Cons t ts)
  from Cons.prems have
    "snd (word_loop ti si (Suc wi) ts
       (wl @ [\<lparr>text_number = ti + 1, sentence_number = si + 1,
               word_number = wi + 1, word_form = tok_text t\<rparr>])
       (m(tok_i t \<mapsto> wi + 1))) x = Some v" by simp
  from Cons.IH [OF this] show ?case
    by (auto split: if_splits)
qed

lemma word_loop_snd_dom:
  "x \<in> tok_i ` set ts \<Longrightarrow> \<exists>v. snd (word_loop ti si wi ts wl m) x = Some v"
proof (induction ts arbitrary: wi wl m)
  case Nil
  then show ?case by simp
next
  case (Cons t ts)
  show ?case
  proof (cases "x \<in> tok_i ` set ts")
    case True
    then show ?thesis using Cons.IH by simp
  next
    case False
    with Cons.prems have "x = tok_i t" by auto
    with False show ?thesis by (simp add: word_loop_snd_other)
  qed
qed


lemma word_loop_snd_indep:
  "snd (word_loop ti si wi ts wl m) = snd (word_loop ti' si' wi ts wl' m)"
  by (induction ts arbitrary: wi wl wl' m) auto

lemma relation_loop_total:
  "\<forall>t \<in> set ts. m (tok_i t) \<noteq> None \<Longrightarrow>
     relation_loop ti si m ts rd = Inr (rd @ sent_relations (ti + 1) (si + 1) m ts)"
  by (induction ts arbitrary: rd) (auto simp: sent_relations_def)

lemma address_map_dom: "t \<in> set sent \<Longrightarrow> address_map sent (tok_i t) \<noteq> None"
  using word_loop_snd_dom [of "tok_i t" sent 0 0 0 "[]" Map.empty]
  by (auto simp: address_map_def)

lemma sentence_body_eq:
  "sentence_body ti si sent b =
     Inr (b\<lparr>word_data := word_data b @ sent_words (ti + 1) (si + 1) sent,
            relation_data := relation_data b @
              sent_relations (ti + 1) (si + 1) (address_map sent) sent\<rparr>)"
proof -
  obtain wl m where wm: "word_loop ti si 0 sent [] Map.empty = (wl, m)"
    by (cases "word_loop ti si 0 sent [] Map.empty")
  have wl: "wl = sent_words (ti + 1) (si + 1) sent"
    using word_loop_fst [of ti si sent Map.empty] wm by simp
  have m: "m = address_map sent"
    using word_loop_snd_indep [of ti si 0 sent "[]" Map.empty 0 0 "[]"] wm
    by (simp add: address_map_def)
  have "relation_loop ti si m sent (relation_data b) =
          Inr (relation_data b @ sent_relations (ti + 1) (si + 1) m sent)"
    by (rule relation_loop_total) (simp add: m address_map_dom)
  then show ?thesis
    by (simp add: sentence_body_def wm wl m)
qed

lemma sent_loop_eq:
  "sent_loop ti si sents b =
     Inr (b\<lparr>word_data := word_data b @
              concat (map (\<lambda>(j, sent). sent_words (ti + 1) (j + 1) sent) (enumerate si sents)),
            relation_data := relation_data b @
              concat (map (\<lambda>(j, sent). sent_relations (ti + 1) (j + 1) (address_map sent) sent)
                (enumerate si sents))\<rparr>)"
  by (induction sents arbitrary: si b) (simp_all add: sentence_body_eq)

lemma text_loop_eq:
  "text_loop ti texts b =
     Inr (b\<lparr>word_data := word_data b @
              concat (map (\<lambda>(k, text). doc_words (k + 1) (nlp b text)) (enumerate ti texts)),
            relation_data := relation_data b @
              concat (map (\<lambda>(k, text). doc_relations (k + 1) (nlp b text))
                (enumerate ti texts))\<rparr>)"
  by (induction texts arbitrary: ti b)
     (simp_all add: sent_loop_eq doc_words_def doc_relations_def)

lemma process_corpus_eq:
  "process_corpus b corpus =
     Inr (b\<lparr>word_data := word_data b @ corpus_words (nlp b) corpus,
            relation_data := relation_data b @ corpus_relations (nlp b) corpus\<rparr>)"
  by (simp add: process_corpus_def text_loop_eq corpus_words_def corpus_relations_def)

section \<open>The sample inputs, evaluated\<close>

lemma address_map_cat:
  "address_map cat_sentence = [0 \<mapsto> 1, 1 \<mapsto> 2, 2 \<mapsto> 3, 3 \<mapsto> 4]"
  by (simp add: address_map_def cat_sentence_def eval_nat_numeral)

lemma sent_words_cat:
  "sent_words d s cat_sentence =
     [\<lparr>text_number = d, sentence_number = s, word_number = 1, word_form = ''The''\<rparr>,
      \<lparr>text_number = d, sentence_number = s, word_number = 2, word_form = ''cat''\<rparr>,
      \<lparr>text_number = d, sentence_number = s, word_number = 3, word_form = ''sleeps''\<rparr>,
      \<lparr>text_number = d, sentence_number = s, word_number = 4, word_form = ''.''\<rparr>]"
  by (simp add: sent_words_def cat_sentence_def upt_rec)

lemma sent_relations_cat:
  "sent_relations d s (address_map cat_sentence) cat_sentence =
     [\<lparr>rel_text_number = d, rel_sentence_number = s, word_number1 = 1, word_number2 = 2,
       relation = ''det'', dep_label = ''det''\<rparr>,
      \<lparr>rel_text_number = d, rel_sentence_number = s, word_number1 = 2, word_number2 = 3,
       relation = ''nsubj'', dep_label = ''nsubj''\<rparr>,
      \<lparr>rel_text_number = d, rel_sentence_number = s, word_number1 = 4, word_number2 = 3,
       relation = ''punct'', dep_label = ''punct''\<rparr>]"
  unfolding address_map_cat by (simp add: sent_relations_def cat_sentence_def)

lemma process_corpus_cat:
  "process_corpus sample_builder [''The cat sleeps.''] = Inr cat_builder"
  by (simp add: process_corpus_eq sample_builder_def cat_builder_def sample_nlp_def
      corpus_words_def corpus_relations_def doc_words_def doc_relations_def
      sent_words_cat sent_relations_cat)

lemma reachable_cat_builder: "reachable cat_builder"
proof -
  have "reachable sample_builder"
    by (rule reachable.fresh) (simp_all add: sample_builder_def)
  then show ?thesis using process_corpus_cat by (rule reachable.call)
qed

lemma address_map_stray:
  "address_map stray_sentence = [0 \<mapsto> 1, 1 \<mapsto> 2, 2 \<mapsto> 3]"
  by (simp add: address_map_def stray_sentence_def eval_nat_numeral)

lemma sent_words_stray:
  "sent_words d s stray_sentence =
     [\<lparr>text_number = d, sentence_number = s, word_number = 1, word_form = ''Hi''\<rparr>,
      \<lparr>text_number = d, sentence_number = s, word_number = 2, word_form = ''there''\<rparr>,
      \<lparr>text_number = d, sentence_number = s, word_number = 3, word_form = ''!''\<rparr>]"
  by (simp add: sent_words_def stray_sentence_def upt_rec)

lemma sent_relations_stray:
  "sent_relations d s (address_map stray_sentence) stray_sentence =
     [\<lparr>rel_text_number = d, rel_sentence_number = s, word_number1 = 3, word_number2 = 1,
       relation = ''punct'', dep_label = ''punct''\<rparr>]"
  unfolding address_map_stray by (simp add: sent_relations_def stray_sentence_def)

lemma process_corpus_cat_hi:
  "process_corpus cat_builder [''Hi there!''] = Inr cat_hi_builder"
  by (simp add: process_corpus_eq cat_hi_builder_def cat_builder_def sample_nlp_def
      corpus_words_def corpus_relations_def doc_words_def doc_relations_def
      sent_words_stray sent_relations_stray)

section \<open>process_corpus only appends\<close>

text \<open>
  C9. Every call of \<open>process_corpus\<close> returns, and it only appends to the two tables: the
  tables before the call are a prefix of the tables after it, the records added are those
  of the corpus in processing order (texts, then sentences, then tokens), and the
  language and the annotator of the builder are unchanged. As a step of a program the
  call changes the instance in this way and leaves every file and every directory of
  the file system as it was.
\<close>

theorem process_corpus_appends:
  "\<exists>b'. process_corpus b corpus = Inr b' \<and>
     language b' = language b \<and> nlp b' = nlp b \<and>
     word_data b' = word_data b @ corpus_words (nlp b) corpus \<and>
     relation_data b' = relation_data b @ corpus_relations (nlp b) corpus \<and>
     take (length (word_data b)) (word_data b') = word_data b \<and>
     take (length (relation_data b)) (relation_data b') = relation_data b \<and>
     call_process_corpus \<lparr>self = b, disk = s\<rparr> corpus = Inr \<lparr>self = b', disk = s\<rparr>"
  by (simp add: process_corpus_eq call_process_corpus_def)

theorem process_corpus_appends_witness:
  "\<exists>b'. process_corpus sample_builder [''The cat sleeps.''] = Inr b' \<and>
     language b' = ''uk'' \<and>
     map word_form (word_data b') = [''The'', ''cat'', ''sleeps'', ''.''] \<and>
     map word_number1 (relation_data b') = [1, 2, 4] \<and>
     call_process_corpus \<lparr>self = sample_builder, disk = empty_fs\<rparr> [''The cat sleeps.''] =
       Inr \<lparr>self = b', disk = empty_fs\<rparr>"
  using process_corpus_appends [of sample_builder "[''The cat sleeps.'']" empty_fs]
  by (auto simp add: sample_builder_def sample_nlp_def corpus_words_def corpus_relations_def
      doc_words_def doc_relations_def sent_words_cat sent_relations_cat)

section \<open>The records of one sentence within the Word Table\<close>

lemma filter_all_or_nothing:
  assumes "\<And>w. w \<in> set xs \<Longrightarrow> Q w \<longleftrightarrow> c"
  shows "filter Q xs = (if c then xs else [])"
  using assms by (induction xs) auto

lemma filter_concat_enumerate:
  assumes "\<And>j x w. w \<in> set (f j x) \<Longrightarrow> Q w \<longleftrightarrow> j = k"
  shows "filter Q (concat (map (\<lambda>(j, x). f j x) (enumerate n xs))) =
           (if n \<le> k \<and> k < n + length xs then f k (xs ! (k - n)) else [])"
proof (induction xs arbitrary: n)
  case Nil
  then show ?case by auto
next
  case (Cons x xs)
  have head: "filter Q (f n x) = (if n = k then f n x else [])"
    by (rule filter_all_or_nothing) (rule assms)
  show ?case
  proof (cases "n = k")
    case True
    then show ?thesis using head Cons.IH [of "Suc n"] by simp
  next
    case False
    then have "(k - n) = Suc (k - Suc n) \<or> k < n" by arith
    then show ?thesis using False head Cons.IH [of "Suc n"] by auto
  qed
qed

lemma sent_words_keys:
  "w \<in> set (sent_words d s sent) \<Longrightarrow> text_number w = d \<and> sentence_number w = s"
  by (auto simp: sent_words_def)

lemma doc_words_text_number:
  "w \<in> set (doc_words d sents) \<Longrightarrow> text_number w = d"
  by (auto simp: doc_words_def dest: sent_words_keys)

lemma filter_doc_words:
  "filter (\<lambda>w. sentence_number w = j + 1) (doc_words d sents) =
     (if j < length sents then sent_words d (j + 1) (sents ! j) else [])"
proof -
  have "\<And>i x w. w \<in> set (sent_words d (i + 1) x) \<Longrightarrow> (sentence_number w = j + 1) = (i = j)"
    by (auto dest: sent_words_keys)
  from filter_concat_enumerate
    [of "\<lambda>i sent. sent_words d (i + 1) sent" "\<lambda>w. sentence_number w = j + 1" j 0 sents,
     OF this]
  show ?thesis by (simp add: doc_words_def)
qed

lemma filter_corpus_words:
  "filter (\<lambda>w. text_number w = k + 1) (corpus_words a corpus) =
     (if k < length corpus then doc_words (k + 1) (a (corpus ! k)) else [])"
proof -
  have "\<And>i x w. w \<in> set (doc_words (i + 1) (a x)) \<Longrightarrow> (text_number w = k + 1) = (i = k)"
    by (auto dest: doc_words_text_number)
  from filter_concat_enumerate
    [of "\<lambda>i x. doc_words (i + 1) (a x)" "\<lambda>w. text_number w = k + 1" k 0 corpus, OF this]
  show ?thesis by (simp add: corpus_words_def)
qed

lemma filter_corpus_words_sentence:
  assumes "k < length corpus" "j < length (a (corpus ! k))"
  shows "filter (\<lambda>w. text_number w = k + 1 \<and> sentence_number w = j + 1)
           (corpus_words a corpus) = sent_words (k + 1) (j + 1) (a (corpus ! k) ! j)"
proof -
  have "filter (\<lambda>w. text_number w = k + 1 \<and> sentence_number w = j + 1)
          (corpus_words a corpus) =
        filter (\<lambda>w. sentence_number w = j + 1)
          (filter (\<lambda>w. text_number w = k + 1) (corpus_words a corpus))"
    by simp
  also have "\<dots> = sent_words (k + 1) (j + 1) (a (corpus ! k) ! j)"
    using assms by (simp only: filter_corpus_words filter_doc_words if_True)
  finally show ?thesis .
qed

lemma corpus_words_keys:
  assumes "w \<in> set (corpus_words a corpus)"
  shows "\<exists>k<length corpus. \<exists>j<length (a (corpus ! k)).
           text_number w = k + 1 \<and> sentence_number w = j + 1 \<and>
           w \<in> set (sent_words (k + 1) (j + 1) (a (corpus ! k) ! j))"
proof -
  from assms obtain k x where kx: "(k, x) \<in> set (enumerate 0 corpus)"
    and w1: "w \<in> set (doc_words (k + 1) (a x))"
    by (auto simp: corpus_words_def)
  from kx have k: "k < length corpus" and x: "x = corpus ! k"
    by (auto simp: in_set_enumerate_eq)
  from w1 obtain j sent where js: "(j, sent) \<in> set (enumerate 0 (a x))"
    and w2: "w \<in> set (sent_words (k + 1) (j + 1) sent)"
    by (auto simp: doc_words_def)
  from js have j: "j < length (a x)" and sent: "sent = a x ! j"
    by (auto simp: in_set_enumerate_eq)
  from w2 have "text_number w = k + 1 \<and> sentence_number w = j + 1"
    by (rule sent_words_keys)
  with k j w2 show ?thesis unfolding x sent by blast
qed

lemma word_numbers_sent_words:
  "map word_number (sent_words d s sent) = [1..<length sent + 1]"
proof -
  have "map word_number (sent_words d s sent) = map Suc [0..<length sent]"
    by (simp add: sent_words_def comp_def)
  then show ?thesis by (simp add: map_Suc_upt)
qed

section \<open>Word numbers of the records one call appends\<close>

text \<open>
  C1 reads the word numbers recorded in the Word Table for a document number and a
  sentence number as those of one sentence. The numbers of documents start again at 1
  in every call, so after \<open>process_corpus(["The cat sleeps."])\<close> and
  \<open>process_corpus(["Hi there!"])\<close> on one instance the table holds, for document 1 and
  sentence 1, the records of two sentences: the word numbers 1, 2 and 3 are recorded
  twice.
\<close>

theorem word_numbers_repeated_counterexample:
  "process_corpus sample_builder [''The cat sleeps.''] = Inr cat_builder \<and>
   process_corpus cat_builder [''Hi there!''] = Inr cat_hi_builder \<and>
   map word_number
     (filter (\<lambda>w. text_number w = 1 \<and> sentence_number w = 1) (word_data cat_hi_builder)) =
     [1, 2, 3, 4, 1, 2, 3] \<and>
   \<not> distinct (map word_number
     (filter (\<lambda>w. text_number w = 1 \<and> sentence_number w = 1) (word_data cat_hi_builder)))"
  by (simp add: process_corpus_cat process_corpus_cat_hi)
     (simp add: cat_hi_builder_def cat_builder_def)

text \<open>
  C1, as the code has it. Every \<open>process_corpus\<close> call returns, on any builder. Every
  record the call appends to the Word Table carries the number \<open>k + 1\<close> of a text of the
  corpus of the call and the number \<open>j + 1\<close> of a sentence of that text, and the appended
  records with these two numbers are, in table order, exactly one record per token of
  that sentence, the token at position \<open>n\<close> (from the left, counted from 0) carrying word
  number \<open>n + 1\<close> and its form: the word numbers the call records for the sentence are
  the list 1, ..., N, where N is the number of tokens of the sentence, whatever
  identifiers the annotator gave the tokens. On a new builder the records the call
  appends are the whole Word Table.
\<close>

theorem word_numbers_contiguous_per_call:
  "\<exists>b'. process_corpus b corpus = Inr b' \<and>
     (\<forall>w \<in> set (drop (length (word_data b)) (word_data b')).
        \<exists>k<length corpus. \<exists>j<length (nlp b (corpus ! k)).
          text_number w = k + 1 \<and> sentence_number w = j + 1) \<and>
     (\<forall>k<length corpus. \<forall>j<length (nlp b (corpus ! k)).
         filter (\<lambda>w. text_number w = k + 1 \<and> sentence_number w = j + 1)
           (drop (length (word_data b)) (word_data b')) =
           sent_words (k + 1) (j + 1) (nlp b (corpus ! k) ! j) \<and>
         map word_number
           (filter (\<lambda>w. text_number w = k + 1 \<and> sentence_number w = j + 1)
              (drop (length (word_data b)) (word_data b'))) =
           [1..<length (nlp b (corpus ! k) ! j) + 1]) \<and>
     (word_data b = [] \<longrightarrow> drop (length (word_data b)) (word_data b') = word_data b')"
proof -
  let ?b' = "b\<lparr>word_data := word_data b @ corpus_words (nlp b) corpus,
               relation_data := relation_data b @ corpus_relations (nlp b) corpus\<rparr>"
  have ret: "process_corpus b corpus = Inr ?b'" by (rule process_corpus_eq)
  have wd: "drop (length (word_data b)) (word_data ?b') = corpus_words (nlp b) corpus"
    by simp
  have keys: "\<forall>w \<in> set (drop (length (word_data b)) (word_data ?b')).
        \<exists>k<length corpus. \<exists>j<length (nlp b (corpus ! k)).
          text_number w = k + 1 \<and> sentence_number w = j + 1"
    unfolding wd using corpus_words_keys [of _ "nlp b" corpus] by blast
  have nums: "\<forall>k<length corpus. \<forall>j<length (nlp b (corpus ! k)).
         filter (\<lambda>w. text_number w = k + 1 \<and> sentence_number w = j + 1)
           (drop (length (word_data b)) (word_data ?b')) =
           sent_words (k + 1) (j + 1) (nlp b (corpus ! k) ! j) \<and>
         map word_number
           (filter (\<lambda>w. text_number w = k + 1 \<and> sentence_number w = j + 1)
              (drop (length (word_data b)) (word_data ?b'))) =
           [1..<length (nlp b (corpus ! k) ! j) + 1]"
    unfolding wd
    by (intro allI impI) (simp only: filter_corpus_words_sentence word_numbers_sent_words)
  have new: "word_data b = [] \<longrightarrow>
      drop (length (word_data b)) (word_data ?b') = word_data ?b'"
    by simp
  from ret keys nums new show ?thesis by blast
qed

theorem word_numbers_contiguous_per_call_witness:
  "\<exists>b'. process_corpus cat_builder [''Hi there!''] = Inr b' \<and>
      map word_number
        (filter (\<lambda>w. text_number w = 1 \<and> sentence_number w = 1)
           (drop (length (word_data cat_builder)) (word_data b'))) = [1, 2, 3]"
proof -
  from word_numbers_contiguous_per_call [of cat_builder "[''Hi there!'']"]
  obtain b' where ret: "process_corpus cat_builder [''Hi there!''] = Inr b'"
    and nums: "\<forall>k<length [''Hi there!''].
      \<forall>j<length (nlp cat_builder ([''Hi there!''] ! k)).
         filter (\<lambda>w. text_number w = k + 1 \<and> sentence_number w = j + 1)
           (drop (length (word_data cat_builder)) (word_data b')) =
           sent_words (k + 1) (j + 1) (nlp cat_builder ([''Hi there!''] ! k) ! j) \<and>
         map word_number
           (filter (\<lambda>w. text_number w = k + 1 \<and> sentence_number w = j + 1)
              (drop (length (word_data cat_builder)) (word_data b'))) =
           [1..<length (nlp cat_builder ([''Hi there!''] ! k) ! j) + 1]"
    by blast
  from nums [rule_format, of 0 0]
  have "filter (\<lambda>w. text_number w = 1 \<and> sentence_number w = 1)
      (drop (length (word_data cat_builder)) (word_data b')) =
      sent_words 1 1 stray_sentence"
    by (simp add: cat_builder_def sample_nlp_def)
  then have "map word_number
      (filter (\<lambda>w. text_number w = 1 \<and> sentence_number w = 1)
         (drop (length (word_data cat_builder)) (word_data b'))) = [1, 2, 3]"
    by (simp add: sent_words_stray)
  with ret show ?thesis by auto
qed

section \<open>The addressing map and the relations of one sentence\<close>




lemma address_map_range:
  "address_map sent x = Some v \<Longrightarrow> 1 \<le> v \<and> v \<le> length sent"
  using word_loop_snd_range [of 0 0 0 sent "[]" Map.empty x v]
  by (auto simp: address_map_def)




lemma sent_relations_keys:
  "r \<in> set (sent_relations d s m sent) \<Longrightarrow>
     rel_text_number r = d \<and> rel_sentence_number r = s"
  by (auto simp: sent_relations_def)

lemma sent_relations_numbers:
  assumes "r \<in> set (sent_relations d s (address_map sent) sent)"
  shows "1 \<le> word_number1 r \<and> word_number1 r \<le> length sent \<and>
         1 \<le> word_number2 r \<and> word_number2 r \<le> length sent"
proof -
  from assms obtain t where t: "t \<in> set sent"
    and g: "address_map sent (tok_head_i t) \<noteq> None"
    and r: "word_number1 r = the (address_map sent (tok_i t))"
           "word_number2 r = the (address_map sent (tok_head_i t))"
    by (auto simp: sent_relations_def)
  from t obtain v1 where v1: "address_map sent (tok_i t) = Some v1"
    using address_map_dom [of t sent] by auto
  from g obtain v2 where v2: "address_map sent (tok_head_i t) = Some v2" by auto
  from address_map_range [OF v1] address_map_range [OF v2] r v1 v2
  show ?thesis by simp
qed



lemma sent_words_member:
  "k < length sent \<Longrightarrow>
     \<lparr>text_number = d, sentence_number = s, word_number = k + 1,
      word_form = tok_text (sent ! k)\<rparr> \<in> set (sent_words d s sent)"
  by (auto simp: sent_words_def)



section \<open>Address validity\<close>

lemma address_valid_mono:
  "address_valid ws r \<Longrightarrow> set ws \<subseteq> set ws' \<Longrightarrow> address_valid ws' r"
  unfolding address_valid_def by blast

lemma sent_words_has:
  assumes "1 \<le> v" "v \<le> length sent"
  shows "\<exists>w \<in> set (sent_words d s sent).
           text_number w = d \<and> sentence_number w = s \<and> word_number w = v"
proof -
  from assms have "v - 1 < length sent" and v: "v - 1 + 1 = v" by auto
  then have "\<lparr>text_number = d, sentence_number = s, word_number = v - 1 + 1,
      word_form = tok_text (sent ! (v - 1))\<rparr> \<in> set (sent_words d s sent)"
    by (intro sent_words_member)
  then have "\<lparr>text_number = d, sentence_number = s, word_number = v,
      word_form = tok_text (sent ! (v - 1))\<rparr> \<in> set (sent_words d s sent)"
    by (simp only: v)
  then show ?thesis by (rule rev_bexI) simp
qed

lemma sent_relations_valid:
  assumes "r \<in> set (sent_relations d s (address_map sent) sent)"
  shows "address_valid (sent_words d s sent) r"
proof -
  from sent_relations_keys [OF assms]
  have keys: "rel_text_number r = d" "rel_sentence_number r = s" by simp_all
  from sent_relations_numbers [OF assms]
  have n1: "1 \<le> word_number1 r" "word_number1 r \<le> length sent"
    and n2: "1 \<le> word_number2 r" "word_number2 r \<le> length sent"
    by simp_all
  from sent_words_has [OF n1, of d s] sent_words_has [OF n2, of d s]
  show ?thesis unfolding address_valid_def keys by (rule conjI)
qed

lemma corpus_words_contains:
  assumes "k < length corpus" "j < length (a (corpus ! k))"
  shows "set (sent_words (k + 1) (j + 1) (a (corpus ! k) ! j)) \<subseteq> set (corpus_words a corpus)"
proof -
  have "set (filter (\<lambda>w. text_number w = k + 1 \<and> sentence_number w = j + 1)
          (corpus_words a corpus)) \<subseteq> set (corpus_words a corpus)"
    by (rule filter_is_subset)
  then show ?thesis
    by (simp only: filter_corpus_words_sentence
        [where a = a and corpus = corpus and k = k and j = j, OF assms])
qed

lemma corpus_relations_keys:
  assumes "r \<in> set (corpus_relations a corpus)"
  shows "\<exists>k<length corpus. \<exists>j<length (a (corpus ! k)).
           r \<in> set (sent_relations (k + 1) (j + 1) (address_map (a (corpus ! k) ! j))
                  (a (corpus ! k) ! j))"
proof -
  from assms obtain k x where kx: "(k, x) \<in> set (enumerate 0 corpus)"
    and r1: "r \<in> set (doc_relations (k + 1) (a x))"
    by (auto simp: corpus_relations_def)
  from kx have k: "k < length corpus" and x: "x = corpus ! k"
    by (auto simp: in_set_enumerate_eq)
  from r1 obtain j sent where js: "(j, sent) \<in> set (enumerate 0 (a x))"
    and r2: "r \<in> set (sent_relations (k + 1) (j + 1) (address_map sent) sent)"
    by (auto simp: doc_relations_def)
  from js have j: "j < length (a x)" and sent: "sent = a x ! j"
    by (auto simp: in_set_enumerate_eq)
  from k j r2 show ?thesis unfolding x sent by blast
qed

lemma corpus_relations_valid:
  assumes "r \<in> set (corpus_relations a corpus)"
  shows "address_valid (corpus_words a corpus) r"
proof -
  from corpus_relations_keys [OF assms] obtain k j where
    k: "k < length corpus" and j: "j < length (a (corpus ! k))"
    and r: "r \<in> set (sent_relations (k + 1) (j + 1) (address_map (a (corpus ! k) ! j))
                  (a (corpus ! k) ! j))"
    by blast
  from sent_relations_valid [OF r]
    corpus_words_contains [where a = a and corpus = corpus and k = k and j = j, OF k j]
  show ?thesis by (rule address_valid_mono)
qed

lemma reachable_valid:
  "reachable b \<Longrightarrow> r \<in> set (relation_data b) \<Longrightarrow> address_valid (word_data b) r"
proof (induction arbitrary: r rule: reachable.induct)
  case (fresh b)
  then show ?case by simp
next
  case (call b corpus b')
  from call.hyps(2) have b': "b' = b\<lparr>word_data := word_data b @ corpus_words (nlp b) corpus,
      relation_data := relation_data b @ corpus_relations (nlp b) corpus\<rparr>"
    by (simp add: process_corpus_eq)
  from call.prems b' have "r \<in> set (relation_data b) \<or> r \<in> set (corpus_relations (nlp b) corpus)"
    by auto
  then show ?case
  proof
    assume "r \<in> set (relation_data b)"
    then have "address_valid (word_data b) r" by (rule call.IH)
    then show ?thesis by (rule address_valid_mono) (simp add: b')
  next
    assume "r \<in> set (corpus_relations (nlp b) corpus)"
    then have "address_valid (corpus_words (nlp b) corpus) r" by (rule corpus_relations_valid)
    then show ?thesis by (rule address_valid_mono) (simp add: b')
  qed
qed

text \<open>
  C3. In every builder that \<open>process_corpus\<close> calls have filled, the dependent and the
  head of every Relation Record are word numbers of Word Records with the text number
  and the sentence number of the relation. Moreover every call returns, and the Relation
  Records a call appends are addressed within the Word Records the same call appends;
  likewise the Relation Records one sentence appends are addressed within the Word
  Records that sentence appends: the addressing map of a sentence serves that sentence
  alone.
\<close>

theorem relation_addresses_valid:
  assumes "reachable b"
  shows "(\<forall>r \<in> set (relation_data b). address_valid (word_data b) r) \<and>
     (\<exists>b'. process_corpus b corpus = Inr b' \<and>
        (\<forall>r \<in> set (drop (length (relation_data b)) (relation_data b')).
           address_valid (drop (length (word_data b)) (word_data b')) r)) \<and>
     (\<exists>b'. sentence_body ti si sent b = Inr b' \<and>
        (\<forall>r \<in> set (drop (length (relation_data b)) (relation_data b')).
           address_valid (drop (length (word_data b)) (word_data b')) r))"
proof (intro conjI)
  show "\<forall>r \<in> set (relation_data b). address_valid (word_data b) r"
    using assms reachable_valid by blast
next
  let ?b' = "b\<lparr>word_data := word_data b @ corpus_words (nlp b) corpus,
      relation_data := relation_data b @ corpus_relations (nlp b) corpus\<rparr>"
  have "process_corpus b corpus = Inr ?b'" by (rule process_corpus_eq)
  moreover have "\<forall>r \<in> set (drop (length (relation_data b)) (relation_data ?b')).
           address_valid (drop (length (word_data b)) (word_data ?b')) r"
    by (simp add: corpus_relations_valid)
  ultimately show "\<exists>b'. process_corpus b corpus = Inr b' \<and>
        (\<forall>r \<in> set (drop (length (relation_data b)) (relation_data b')).
           address_valid (drop (length (word_data b)) (word_data b')) r)"
    by blast
next
  let ?b' = "b\<lparr>word_data := word_data b @ sent_words (ti + 1) (si + 1) sent,
      relation_data := relation_data b @
        sent_relations (ti + 1) (si + 1) (address_map sent) sent\<rparr>"
  have "sentence_body ti si sent b = Inr ?b'" by (rule sentence_body_eq)
  moreover have "\<forall>r \<in> set (drop (length (relation_data b)) (relation_data ?b')).
           address_valid (drop (length (word_data b)) (word_data ?b')) r"
    by (simp add: sent_relations_valid)
  ultimately show "\<exists>b'. sentence_body ti si sent b = Inr b' \<and>
        (\<forall>r \<in> set (drop (length (relation_data b)) (relation_data b')).
           address_valid (drop (length (word_data b)) (word_data b')) r)"
    by blast
qed

theorem relation_addresses_valid_witness:
  "reachable cat_builder \<and>
   address_valid (word_data cat_builder)
     \<lparr>rel_text_number = 1, rel_sentence_number = 1, word_number1 = 4, word_number2 = 3,
      relation = ''punct'', dep_label = ''punct''\<rparr>"
proof -
  from relation_addresses_valid [OF reachable_cat_builder, of "[]" 0 0 "[]"]
  have "\<forall>r \<in> set (relation_data cat_builder). address_valid (word_data cat_builder) r"
    by blast
  then have "address_valid (word_data cat_builder)
     \<lparr>rel_text_number = 1, rel_sentence_number = 1, word_number1 = 4, word_number2 = 3,
      relation = ''punct'', dep_label = ''punct''\<rparr>"
    by (simp add: cat_builder_def)
  with reachable_cat_builder show ?thesis by simp
qed

section \<open>Looking up a word form\<close>

lemma get_word_form_loop_find:
  "get_word_form_loop ws tn sn wn =
     map_option word_form
       (find (\<lambda>w. int (text_number w) = tn \<and> int (sentence_number w) = sn \<and>
                  int (word_number w) = wn) ws)"
  by (induction ws) simp_all

lemma get_word_form_loop_None:
  "get_word_form_loop ws tn sn wn = None \<longleftrightarrow>
     (\<forall>w \<in> set ws. \<not> (int (text_number w) = tn \<and> int (sentence_number w) = sn \<and>
                         int (word_number w) = wn))"
  by (induction ws) auto

lemma address_valid_found:
  assumes "address_valid (word_data b) r"
  shows "get_word_form b (int (rel_text_number r)) (int (rel_sentence_number r))
           (int (word_number1 r)) \<noteq> None \<and>
         get_word_form b (int (rel_text_number r)) (int (rel_sentence_number r))
           (int (word_number2 r)) \<noteq> None"
  using assms unfolding address_valid_def get_word_form_def get_word_form_loop_None
  by auto

text \<open>
  C10. \<open>get_word_form\<close> returns the word form of the first record of the Word Table whose
  three numbers equal the arguments, and \<open>None\<close> exactly when no record of the table has
  these three numbers; it raises nothing. In a builder that \<open>process_corpus\<close> calls have
  filled, it returns a word form for the dependent and for the head of every Relation
  Record, looked up under the text number and the sentence number of the relation.
\<close>

theorem get_word_form_first_match:
  "get_word_form b tn sn wn =
     map_option word_form
       (find (\<lambda>w. int (text_number w) = tn \<and> int (sentence_number w) = sn \<and>
                  int (word_number w) = wn) (word_data b)) \<and>
   (get_word_form b tn sn wn = None \<longleftrightarrow>
      (\<forall>w \<in> set (word_data b). \<not> (int (text_number w) = tn \<and>
          int (sentence_number w) = sn \<and> int (word_number w) = wn))) \<and>
   (reachable b \<longrightarrow>
      (\<forall>r \<in> set (relation_data b).
         get_word_form b (int (rel_text_number r)) (int (rel_sentence_number r))
           (int (word_number1 r)) \<noteq> None \<and>
         get_word_form b (int (rel_text_number r)) (int (rel_sentence_number r))
           (int (word_number2 r)) \<noteq> None))"
proof (intro conjI impI ballI)
  show "get_word_form b tn sn wn =
     map_option word_form
       (find (\<lambda>w. int (text_number w) = tn \<and> int (sentence_number w) = sn \<and>
                  int (word_number w) = wn) (word_data b))"
    by (simp add: get_word_form_def get_word_form_loop_find)
next
  show "get_word_form b tn sn wn = None \<longleftrightarrow>
      (\<forall>w \<in> set (word_data b). \<not> (int (text_number w) = tn \<and>
          int (sentence_number w) = sn \<and> int (word_number w) = wn))"
    unfolding get_word_form_def by (rule get_word_form_loop_None)
next
  fix r
  assume "reachable b" "r \<in> set (relation_data b)"
  then have v: "address_valid (word_data b) r" by (rule reachable_valid)
  from address_valid_found [OF v]
  show "get_word_form b (int (rel_text_number r)) (int (rel_sentence_number r))
           (int (word_number1 r)) \<noteq> None" ..
  from address_valid_found [OF v]
  show "get_word_form b (int (rel_text_number r)) (int (rel_sentence_number r))
           (int (word_number2 r)) \<noteq> None" ..
qed

theorem get_word_form_first_match_witness:
  "reachable cat_builder \<and>
   get_word_form cat_builder 1 1 2 = Some ''cat'' \<and>
   get_word_form cat_builder 1 1 9 = None \<and>
   get_word_form cat_builder 1 1 4 \<noteq> None \<and>
   get_word_form cat_builder 1 1 3 \<noteq> None"
proof -
  note t = get_word_form_first_match
  from t [of cat_builder 1 1 2]
  have a: "get_word_form cat_builder 1 1 2 = Some ''cat''"
    by (simp add: cat_builder_def)
  from t [of cat_builder 1 1 9]
  have b: "get_word_form cat_builder 1 1 9 = None"
    by (simp add: cat_builder_def)
  from t [of cat_builder 1 1 2] reachable_cat_builder
  have "\<forall>r \<in> set (relation_data cat_builder).
         get_word_form cat_builder (int (rel_text_number r)) (int (rel_sentence_number r))
           (int (word_number1 r)) \<noteq> None \<and>
         get_word_form cat_builder (int (rel_text_number r)) (int (rel_sentence_number r))
           (int (word_number2 r)) \<noteq> None"
    by blast
  then have c: "get_word_form cat_builder 1 1 4 \<noteq> None \<and>
      get_word_form cat_builder 1 1 3 \<noteq> None"
    by (simp add: cat_builder_def)
  from reachable_cat_builder a b c show ?thesis by simp
qed

section \<open>Numbering of documents, sentences and words\<close>

lemma sent_words_enumerate:
  "sent_words d s sent =
     map (\<lambda>(n, t). \<lparr>text_number = d, sentence_number = s, word_number = n + 1,
                      word_form = tok_text t\<rparr>) (enumerate 0 sent)"
  by (simp add: sent_words_def enumerate_nth comp_def)

lemma corpus_words_enumerate:
  "corpus_words a corpus =
     concat (map (\<lambda>(k, x).
       concat (map (\<lambda>(j, sent).
         map (\<lambda>(n, t). \<lparr>text_number = k + 1, sentence_number = j + 1, word_number = n + 1,
                          word_form = tok_text t\<rparr>) (enumerate 0 sent))
         (enumerate 0 (a x))))
       (enumerate 0 corpus))"
  by (simp add: corpus_words_def doc_words_def sent_words_enumerate)

lemma sorted_text_numbers_from:
  "sorted (map text_number
     (concat (map (\<lambda>(k, x). doc_words (k + 1) (a x)) (enumerate n corpus)))) \<and>
   (\<forall>w \<in> set (concat (map (\<lambda>(k, x). doc_words (k + 1) (a x)) (enumerate n corpus))).
      n < text_number w)"
proof (induction corpus arbitrary: n)
  case Nil
  then show ?case by simp
next
  case (Cons x xs)
  have hd_eq: "\<forall>w \<in> set (doc_words (n + 1) (a x)). text_number w = n + 1"
    using doc_words_text_number by blast
  then have "map text_number (doc_words (n + 1) (a x)) =
      replicate (length (doc_words (n + 1) (a x))) (n + 1)"
    by (simp add: map_replicate_const [symmetric] cong: map_cong)
  then have hd_sorted: "sorted (map text_number (doc_words (n + 1) (a x)))"
    by (simp add: sorted_replicate)
  let ?rest = "concat (map (\<lambda>(k, x). doc_words (k + 1) (a x)) (enumerate (Suc n) xs))"
  from Cons.IH [of "Suc n"] have rest_sorted: "sorted (map text_number ?rest)"
    and rest_gt: "\<forall>w \<in> set ?rest. Suc n < text_number w"
    by simp_all
  have whole: "concat (map (\<lambda>(k, x). doc_words (k + 1) (a x)) (enumerate n (x # xs))) =
      doc_words (n + 1) (a x) @ ?rest"
    by simp
  have "sorted (map text_number (doc_words (n + 1) (a x) @ ?rest))"
    unfolding map_append sorted_append
    using hd_sorted rest_sorted hd_eq rest_gt by fastforce
  moreover have "\<forall>w \<in> set (doc_words (n + 1) (a x) @ ?rest). n < text_number w"
    using hd_eq rest_gt by fastforce
  ultimately show ?case unfolding whole by blast
qed

lemma sorted_text_numbers: "sorted (map text_number (corpus_words a corpus))"
  using sorted_text_numbers_from [of a 0 corpus] by (simp add: corpus_words_def)

text \<open>
  C5 reads the document numbers as continuing over all the calls made on one instance:
  a text processed later would get a number greater than every number in the tables.
  The loop is \<open>enumerate(corpus)\<close>, which starts again at 0 in every call. After
  \<open>process_corpus(["The cat sleeps."])\<close> and \<open>process_corpus(["Hi there!"])\<close> on one
  instance, the records of the second text carry document number 1, as those of the
  first do.
\<close>

theorem document_numbers_restart_counterexample:
  "process_corpus sample_builder [''The cat sleeps.''] = Inr cat_builder \<and>
   process_corpus cat_builder [''Hi there!''] = Inr cat_hi_builder \<and>
   map text_number (word_data cat_builder) = [1, 1, 1, 1] \<and>
   map text_number (drop (length (word_data cat_builder)) (word_data cat_hi_builder)) =
     [1, 1, 1] \<and>
   \<not> (\<forall>w \<in> set (drop (length (word_data cat_builder)) (word_data cat_hi_builder)).
        \<forall>v \<in> set (word_data cat_builder). text_number v < text_number w)"
  by (simp add: process_corpus_cat process_corpus_cat_hi)
     (simp add: cat_hi_builder_def cat_builder_def)

text \<open>
  C5, as the code has it. A \<open>process_corpus\<close> call numbers the texts of its corpus by their
  position in that corpus: the text at position \<open>k\<close> (from 0) gets document number
  \<open>k + 1\<close>, in every call, whatever the tables already hold, so the document numbers of
  the records a call appends start at 1 and never decrease along them. Within a
  document the sentence at position \<open>j\<close> gets number \<open>j + 1\<close>, and within a sentence the
  token at position \<open>n\<close> gets word number \<open>n + 1\<close>.
\<close>

theorem numbering_per_call:
  "\<exists>b' new. process_corpus b corpus = Inr b' \<and>
     word_data b' = word_data b @ new \<and>
     new = concat (map (\<lambda>(k, x).
             concat (map (\<lambda>(j, sent).
               map (\<lambda>(n, t). \<lparr>text_number = k + 1, sentence_number = j + 1,
                                word_number = n + 1, word_form = tok_text t\<rparr>)
                 (enumerate 0 sent))
               (enumerate 0 (nlp b x))))
             (enumerate 0 corpus)) \<and>
     sorted (map text_number new)"
proof -
  let ?b' = "b\<lparr>word_data := word_data b @ corpus_words (nlp b) corpus,
               relation_data := relation_data b @ corpus_relations (nlp b) corpus\<rparr>"
  have "process_corpus b corpus = Inr ?b'" by (rule process_corpus_eq)
  moreover have "word_data ?b' = word_data b @ corpus_words (nlp b) corpus" by simp
  moreover note corpus_words_enumerate [of "nlp b" corpus]
    sorted_text_numbers [of "nlp b" corpus]
  ultimately show ?thesis by blast
qed

theorem numbering_per_call_witness:
  "\<exists>b'. process_corpus cat_builder [''Hi there!'', ''The cat sleeps.''] = Inr b' \<and>
     map (\<lambda>w. (text_number w, sentence_number w, word_number w))
       (drop (length (word_data cat_builder)) (word_data b')) =
     [(1, 1, 1), (1, 1, 2), (1, 1, 3), (2, 1, 1), (2, 1, 2), (2, 1, 3), (2, 1, 4)]"
proof -
  from numbering_per_call [of cat_builder "[''Hi there!'', ''The cat sleeps.'']"]
  obtain b' new where ret: "process_corpus cat_builder [''Hi there!'', ''The cat sleeps.''] = Inr b'"
    and wd: "word_data b' = word_data cat_builder @ new"
    and new: "new = concat (map (\<lambda>(k, x).
             concat (map (\<lambda>(j, sent).
               map (\<lambda>(n, t). \<lparr>text_number = k + 1, sentence_number = j + 1,
                                word_number = n + 1, word_form = tok_text t\<rparr>)
                 (enumerate 0 sent))
               (enumerate 0 (nlp cat_builder x))))
             (enumerate 0 [''Hi there!'', ''The cat sleeps.'']))"
    by blast
  from new have "map (\<lambda>w. (text_number w, sentence_number w, word_number w)) new =
     [(1, 1, 1), (1, 1, 2), (1, 1, 3), (2, 1, 1), (2, 1, 2), (2, 1, 3), (2, 1, 4)]"
    by (simp add: cat_builder_def sample_nlp_def stray_sentence_def cat_sentence_def)
  with ret wd show ?thesis by simp
qed

section \<open>The files written by generate_files\<close>

lemma write_words_eq: "write_words ws f = f @ concat (map word_row ws)"
  by (induction ws arbitrary: f) (simp_all add: word_row_def)

lemma py_format_case:
  "py_format g = (case g of Some gloss \<Rightarrow> gloss | None \<Rightarrow> ''None'')"
  by (cases g) simp_all

lemma write_relations_eq:
  "write_relations explain rs f = f @ concat (map (relation_row explain) rs)"
  by (induction rs arbitrary: f) (simp_all add: relation_row_def py_format_case)

lemma path_join_inject: "path_join d x = path_join d y \<longleftrightarrow> x = y"
  by (simp add: path_join_def)

lemma words_path_neq_relations_path:
  "path_join d ''words.txt'' \<noteq> path_join d ''relations.txt''"
  by (simp add: path_join_inject)

lemma generate_files_words:
  "files (generate_files explain b output_dir s) (path_join output_dir ''words.txt'') =
     Some (tab_row [''TextNumber'', ''SentenceNumber'', ''WordNumber'', ''WordForm''] @
           concat (map word_row (word_data b)))"
  by (simp add: generate_files_def Let_def write_words_eq words_path_neq_relations_path)

lemma generate_files_relations:
  "files (generate_files explain b output_dir s) (path_join output_dir ''relations.txt'') =
     Some (tab_row [''TextNumber'', ''SentenceNumber'', ''WordNumber1'', ''WordNumber2'',
                    ''Relation''] @
           concat (map (relation_row explain) (relation_data b)))"
  by (simp add: generate_files_def Let_def write_relations_eq)

lemma generate_files_other:
  "p \<noteq> path_join output_dir ''words.txt'' \<Longrightarrow> p \<noteq> path_join output_dir ''relations.txt'' \<Longrightarrow>
     files (generate_files explain b output_dir s) p = files s p"
  by (simp add: generate_files_def Let_def makedirs_def)

lemma str_nat_digit: "n < 10 \<Longrightarrow> str_nat n = [digit_char n]"
  by (simp add: str_nat.simps [of n])

lemma str_nat_1: "str_nat 1 = ''1''"
  using str_nat_digit [of 1] by (simp add: digit_char_def)

lemma str_nat_2: "str_nat 2 = ''2''"
  using str_nat_digit [of 2] by (simp add: digit_char_def)

lemma str_nat_3: "str_nat 3 = ''3''"
  using str_nat_digit [of 3] by (simp add: digit_char_def)

lemma str_nat_4: "str_nat 4 = ''4''"
  using str_nat_digit [of 4] by (simp add: digit_char_def)

lemma str_nat_Suc_0: "str_nat (Suc 0) = ''1''"
  using str_nat_1 by simp

lemmas str_nat_small = str_nat_Suc_0 str_nat_1 str_nat_2 str_nat_3 str_nat_4

lemma str_nat_example: "str_nat 120 = ''120''"
  by (simp add: str_nat.simps [of 120] str_nat.simps [of 12] str_nat.simps [of "Suc 0"]
      digit_char_def)

lemma digit_char_in: "d < 10 \<Longrightarrow> digit_char d \<in> set ''0123456789''"
  unfolding digit_char_def by (rule nth_mem) simp

lemma str_nat_digits: "set (str_nat n) \<subseteq> set ''0123456789''"
proof (induction n rule: str_nat.induct)
  case (1 n)
  show ?case
  proof (cases "n < 10")
    case True
    then show ?thesis using digit_char_in [of n] by (simp add: str_nat.simps [of n])
  next
    case False
    have "n mod 10 < 10" by simp
    then have "digit_char (n mod 10) \<in> set ''0123456789''" by (rule digit_char_in)
    with False "1.IH" show ?thesis by (simp add: str_nat.simps [of n])
  qed
qed

lemma str_nat_no_newline: "count_list (str_nat n) NL = 0"
proof -
  have "NL \<notin> set ''0123456789''" by (simp add: NL_def)
  with str_nat_digits [of n] have "NL \<notin> set (str_nat n)" by blast
  then show ?thesis by (simp add: count_list_0_iff)
qed

lemma TAB_neq_NL: "TAB \<noteq> NL"
  by (simp add: TAB_def NL_def)

lemma word_row_lines:
  "count_list (word_row w) NL = 1 + count_list (word_form w) NL"
  by (simp add: word_row_def str_nat_no_newline TAB_neq_NL)

lemma relation_row_lines:
  "count_list (relation_row explain r) NL =
     1 + count_list (case explain (dep_label r) of Some gloss \<Rightarrow> gloss | None \<Rightarrow> ''None'') NL"
  by (simp add: relation_row_def str_nat_no_newline TAB_neq_NL)

lemma count_list_rows:
  "(\<And>x. x \<in> set xs \<Longrightarrow> count_list (row x) c = 1) \<Longrightarrow>
     count_list (concat (map row xs)) c = length xs"
  by (induction xs) simp_all

lemma header_lines:
  "count_list (tab_row [''TextNumber'', ''SentenceNumber'', ''WordNumber'', ''WordForm'']) NL = 1"
  "count_list (tab_row [''TextNumber'', ''SentenceNumber'', ''WordNumber1'', ''WordNumber2'',
     ''Relation'']) NL = 1"
  by (simp_all add: TAB_def NL_def)

lemma tab_row_nonempty: "tab_row xs \<noteq> []"
  by (induction xs rule: tab_row.induct) simp_all

lemma last_tab_row: "last (tab_row xs) = NL"
  by (induction xs rule: tab_row.induct) (simp_all add: tab_row_nonempty)

lemma process_corpus_break:
  "process_corpus \<lparr>language = ''uk'', nlp = break_nlp, word_data = [], relation_data = []\<rparr>
     [''Hi'' @ [NL]] = Inr break_builder"
proof -
  have m: "address_map break_sentence = [0 \<mapsto> 1, 1 \<mapsto> 2]"
    by (simp add: address_map_def break_sentence_def eval_nat_numeral)
  have w: "\<And>d s. sent_words d s break_sentence =
     [\<lparr>text_number = d, sentence_number = s, word_number = 1, word_form = ''Hi''\<rparr>,
      \<lparr>text_number = d, sentence_number = s, word_number = 2, word_form = [NL]\<rparr>]"
    by (simp add: sent_words_def break_sentence_def upt_rec)
  have r: "\<And>d s. sent_relations d s (address_map break_sentence) break_sentence =
     [\<lparr>rel_text_number = d, rel_sentence_number = s, word_number1 = 2, word_number2 = 1,
       relation = ''dep'', dep_label = ''dep''\<rparr>]"
    unfolding m by (simp add: sent_relations_def break_sentence_def)
  show ?thesis
    by (simp add: process_corpus_eq break_builder_def break_nlp_def corpus_words_def
        corpus_relations_def doc_words_def doc_relations_def w r)
qed

text \<open>
  C6 reads the files as holding one line per record. The form of a token is written as
  it is, and the annotator makes a token of a line break, whose form is the line break.
  After \<open>process_corpus(["Hi\n"])\<close> the Word Table has two records, and \<open>words.txt\<close> has
  four lines: the header, the line of the first record, and two lines for the second
  record, the first of them ending after the third tab.
\<close>

theorem line_per_record_counterexample:
  "process_corpus \<lparr>language = ''uk'', nlp = break_nlp, word_data = [], relation_data = []\<rparr>
     [''Hi'' @ [NL]] = Inr break_builder \<and>
   length (word_data break_builder) = 2 \<and>
   files (generate_files sample_explain break_builder ''out'' empty_fs) ''out/words.txt'' =
     Some (''TextNumber'' @ [TAB] @ ''SentenceNumber'' @ [TAB] @ ''WordNumber'' @ [TAB] @
             ''WordForm'' @ [NL] @
           ''1'' @ [TAB] @ ''1'' @ [TAB] @ ''1'' @ [TAB] @ ''Hi'' @ [NL] @
           ''1'' @ [TAB] @ ''1'' @ [TAB] @ ''2'' @ [TAB] @ [NL] @ [NL]) \<and>
   count_list
     (''TextNumber'' @ [TAB] @ ''SentenceNumber'' @ [TAB] @ ''WordNumber'' @ [TAB] @
        ''WordForm'' @ [NL] @
      ''1'' @ [TAB] @ ''1'' @ [TAB] @ ''1'' @ [TAB] @ ''Hi'' @ [NL] @
      ''1'' @ [TAB] @ ''1'' @ [TAB] @ ''2'' @ [TAB] @ [NL] @ [NL]) NL = 4"
proof -
  have path: "path_join ''out'' ''words.txt'' = ''out/words.txt''"
    by (simp add: path_join_def)
  have len: "length (word_data break_builder) = 2" by (simp add: break_builder_def)
  have content: "files (generate_files sample_explain break_builder ''out'' empty_fs)
      ''out/words.txt'' =
     Some (''TextNumber'' @ [TAB] @ ''SentenceNumber'' @ [TAB] @ ''WordNumber'' @ [TAB] @
             ''WordForm'' @ [NL] @
           ''1'' @ [TAB] @ ''1'' @ [TAB] @ ''1'' @ [TAB] @ ''Hi'' @ [NL] @
           ''1'' @ [TAB] @ ''1'' @ [TAB] @ ''2'' @ [TAB] @ [NL] @ [NL])"
    using generate_files_words [of sample_explain break_builder "''out''" empty_fs]
    by (simp add: path break_builder_def word_row_def str_nat_small)
  have lines: "count_list
     (''TextNumber'' @ [TAB] @ ''SentenceNumber'' @ [TAB] @ ''WordNumber'' @ [TAB] @
        ''WordForm'' @ [NL] @
      ''1'' @ [TAB] @ ''1'' @ [TAB] @ ''1'' @ [TAB] @ ''Hi'' @ [NL] @
      ''1'' @ [TAB] @ ''1'' @ [TAB] @ ''2'' @ [TAB] @ [NL] @ [NL]) NL = 4"
    by (simp add: TAB_def NL_def)
  from process_corpus_break len content lines show ?thesis by simp
qed


text \<open>
  C6, as the code has it. \<open>generate_files\<close> leaves two files in the output directory.
  \<open>words.txt\<close> holds the header line \<open>TextNumber\<close>, \<open>SentenceNumber\<close>, \<open>WordNumber\<close>,
  \<open>WordForm\<close> and then, for every record of the Word Table in table order, the three
  numbers of the record and its word form, separated by tabs and followed by a newline.
  \<open>relations.txt\<close> holds the header line \<open>TextNumber\<close>, \<open>SentenceNumber\<close>,
  \<open>WordNumber1\<close>, \<open>WordNumber2\<close>, \<open>Relation\<close> and then, for every record of the Relation
  Table in table order, its two numbers, the dependent, the head and, for a label the
  resolver has a gloss of, that gloss, separated by tabs and followed by a newline. The
  word form and the gloss are written as they are: the text of a record has one newline
  more than its word form has, so a record is one line exactly when its word form has no
  line break, and a file whose word forms (whose glosses) have no line break has one
  line per record after the header. With two empty tables each file is its header line.
  No other file changes.
\<close>

theorem generate_files_rows:
  "files (generate_files explain b output_dir s) (path_join output_dir ''words.txt'') =
     Some (tab_row [''TextNumber'', ''SentenceNumber'', ''WordNumber'', ''WordForm''] @
           concat (map (\<lambda>w. tab_row [str_nat (text_number w), str_nat (sentence_number w),
                                       str_nat (word_number w), word_form w])
                    (word_data b))) \<and>
   files (generate_files explain b output_dir s) (path_join output_dir ''relations.txt'') =
     Some (tab_row [''TextNumber'', ''SentenceNumber'', ''WordNumber1'', ''WordNumber2'',
                    ''Relation''] @
           concat (map (relation_row explain) (relation_data b))) \<and>
   (\<forall>r gloss. explain (dep_label r) = Some gloss \<longrightarrow>
      relation_row explain r =
        tab_row [str_nat (rel_text_number r), str_nat (rel_sentence_number r),
                 str_nat (word_number1 r), str_nat (word_number2 r), gloss]) \<and>
   (\<forall>a b c d e. tab_row [a, b, c, d] = a @ [TAB] @ b @ [TAB] @ c @ [TAB] @ d @ [NL] \<and>
      tab_row [a, b, c, d, e] =
        a @ [TAB] @ b @ [TAB] @ c @ [TAB] @ d @ [TAB] @ e @ [NL]) \<and>
   (word_data b = [] \<and> relation_data b = [] \<longrightarrow>
      files (generate_files explain b output_dir s) (path_join output_dir ''words.txt'') =
        Some (tab_row [''TextNumber'', ''SentenceNumber'', ''WordNumber'', ''WordForm'']) \<and>
      files (generate_files explain b output_dir s) (path_join output_dir ''relations.txt'') =
        Some (tab_row [''TextNumber'', ''SentenceNumber'', ''WordNumber1'', ''WordNumber2'',
                       ''Relation''])) \<and>
   (\<forall>w :: word_record.
      count_list (tab_row [str_nat (text_number w), str_nat (sentence_number w),
                               str_nat (word_number w), word_form w]) NL =
          1 + count_list (word_form w) NL) \<and>
   ((\<forall>w \<in> set (word_data b). NL \<notin> set (word_form w)) \<longrightarrow>
      count_list
        (tab_row [''TextNumber'', ''SentenceNumber'', ''WordNumber'', ''WordForm''] @
         concat (map (\<lambda>w. tab_row [str_nat (text_number w), str_nat (sentence_number w),
                                     str_nat (word_number w), word_form w])
                  (word_data b))) NL = 1 + length (word_data b)) \<and>
   ((\<forall>r \<in> set (relation_data b). \<forall>gloss.
        explain (dep_label r) = Some gloss \<longrightarrow> NL \<notin> set gloss) \<longrightarrow>
      count_list
        (tab_row [''TextNumber'', ''SentenceNumber'', ''WordNumber1'', ''WordNumber2'',
                  ''Relation''] @
         concat (map (relation_row explain) (relation_data b))) NL =
        1 + length (relation_data b)) \<and>
   (\<forall>p. p \<noteq> path_join output_dir ''words.txt'' \<and>
        p \<noteq> path_join output_dir ''relations.txt'' \<longrightarrow>
        files (generate_files explain b output_dir s) p = files s p)"
proof (intro conjI allI impI)
  show "files (generate_files explain b output_dir s) (path_join output_dir ''words.txt'') =
     Some (tab_row [''TextNumber'', ''SentenceNumber'', ''WordNumber'', ''WordForm''] @
           concat (map (\<lambda>w. tab_row [str_nat (text_number w), str_nat (sentence_number w),
                                       str_nat (word_number w), word_form w])
                    (word_data b)))"
    using generate_files_words [of explain b output_dir s]
    by (simp only: word_row_def [abs_def])
next
  show "files (generate_files explain b output_dir s)
          (path_join output_dir ''relations.txt'') =
     Some (tab_row [''TextNumber'', ''SentenceNumber'', ''WordNumber1'', ''WordNumber2'',
                    ''Relation''] @
           concat (map (relation_row explain) (relation_data b)))"
    by (rule generate_files_relations)
next
  fix r :: relation_record and gloss
  assume "explain (dep_label r) = Some gloss"
  then show "relation_row explain r =
        tab_row [str_nat (rel_text_number r), str_nat (rel_sentence_number r),
                 str_nat (word_number1 r), str_nat (word_number2 r), gloss]"
    by (simp add: relation_row_def)
next
  fix a b c d e :: string
  show "tab_row [a, b, c, d] = a @ [TAB] @ b @ [TAB] @ c @ [TAB] @ d @ [NL]" by simp
  show "tab_row [a, b, c, d, e] =
        a @ [TAB] @ b @ [TAB] @ c @ [TAB] @ d @ [TAB] @ e @ [NL]" by simp
next
  assume "word_data b = [] \<and> relation_data b = []"
  then show "files (generate_files explain b output_dir s)
       (path_join output_dir ''words.txt'') =
        Some (tab_row [''TextNumber'', ''SentenceNumber'', ''WordNumber'', ''WordForm''])"
    by (simp only: generate_files_words) simp
next
  assume "word_data b = [] \<and> relation_data b = []"
  then show "files (generate_files explain b output_dir s)
       (path_join output_dir ''relations.txt'') =
        Some (tab_row [''TextNumber'', ''SentenceNumber'', ''WordNumber1'', ''WordNumber2'',
                       ''Relation''])"
    by (simp only: generate_files_relations) simp
next
  fix w :: word_record
  show "count_list (tab_row [str_nat (text_number w), str_nat (sentence_number w),
                               str_nat (word_number w), word_form w]) NL =
          1 + count_list (word_form w) NL"
    using word_row_lines [of w] by (simp only: word_row_def)
next
  assume clean: "\<forall>w \<in> set (word_data b). NL \<notin> set (word_form w)"
  have "count_list (concat (map word_row (word_data b))) NL = length (word_data b)"
  proof (rule count_list_rows)
    fix w assume "w \<in> set (word_data b)"
    with clean have "count_list (word_form w) NL = 0" by (simp add: count_list_0_iff)
    then show "count_list (word_row w) NL = 1" by (simp add: word_row_lines)
  qed
  then have "count_list
        (tab_row [''TextNumber'', ''SentenceNumber'', ''WordNumber'', ''WordForm''] @
         concat (map word_row (word_data b))) NL = 1 + length (word_data b)"
    by (simp only: count_list_append header_lines)
  then show "count_list
        (tab_row [''TextNumber'', ''SentenceNumber'', ''WordNumber'', ''WordForm''] @
         concat (map (\<lambda>w. tab_row [str_nat (text_number w), str_nat (sentence_number w),
                                     str_nat (word_number w), word_form w])
                  (word_data b))) NL = 1 + length (word_data b)"
    by (simp only: word_row_def [abs_def])
next
  assume clean: "\<forall>r \<in> set (relation_data b). \<forall>gloss.
        explain (dep_label r) = Some gloss \<longrightarrow> NL \<notin> set gloss"
  have "count_list (concat (map (relation_row explain) (relation_data b))) NL =
      length (relation_data b)"
  proof (rule count_list_rows)
    fix r assume r: "r \<in> set (relation_data b)"
    have "count_list (case explain (dep_label r) of Some gloss \<Rightarrow> gloss
        | None \<Rightarrow> ''None'') NL = 0"
    proof (cases "explain (dep_label r)")
      case None
      then show ?thesis by (simp add: NL_def)
    next
      case (Some gloss)
      with clean r have "NL \<notin> set gloss" by blast
      with Some show ?thesis by (simp add: count_list_0_iff)
    qed
    then show "count_list (relation_row explain r) NL = 1"
      by (simp add: relation_row_lines)
  qed
  then show "count_list
        (tab_row [''TextNumber'', ''SentenceNumber'', ''WordNumber1'', ''WordNumber2'',
                  ''Relation''] @
         concat (map (relation_row explain) (relation_data b))) NL =
        1 + length (relation_data b)"
    by (simp only: count_list_append header_lines)
next
  fix p
  assume "p \<noteq> path_join output_dir ''words.txt'' \<and>
        p \<noteq> path_join output_dir ''relations.txt''"
  then show "files (generate_files explain b output_dir s) p = files s p"
    by (simp add: generate_files_other)
qed

theorem generate_files_rows_witness:
  "files (generate_files sample_explain cat_builder ''out'' empty_fs) ''out/words.txt'' =
     Some (''TextNumber'' @ [TAB] @ ''SentenceNumber'' @ [TAB] @ ''WordNumber'' @ [TAB] @
             ''WordForm'' @ [NL] @
           ''1'' @ [TAB] @ ''1'' @ [TAB] @ ''1'' @ [TAB] @ ''The'' @ [NL] @
           ''1'' @ [TAB] @ ''1'' @ [TAB] @ ''2'' @ [TAB] @ ''cat'' @ [NL] @
           ''1'' @ [TAB] @ ''1'' @ [TAB] @ ''3'' @ [TAB] @ ''sleeps'' @ [NL] @
           ''1'' @ [TAB] @ ''1'' @ [TAB] @ ''4'' @ [TAB] @ ''.'' @ [NL]) \<and>
   word_data sample_builder = [] \<and> relation_data sample_builder = [] \<and>
   files (generate_files sample_explain sample_builder ''out'' empty_fs) ''out/words.txt'' =
     Some (''TextNumber'' @ [TAB] @ ''SentenceNumber'' @ [TAB] @ ''WordNumber'' @ [TAB] @
             ''WordForm'' @ [NL]) \<and>
   files (generate_files sample_explain sample_builder ''out'' empty_fs)
       ''out/relations.txt'' =
     Some (''TextNumber'' @ [TAB] @ ''SentenceNumber'' @ [TAB] @ ''WordNumber1'' @ [TAB] @
             ''WordNumber2'' @ [TAB] @ ''Relation'' @ [NL]) \<and>
   sample_explain ''det'' = Some ''determiner'' \<and>
   relation_row sample_explain
     \<lparr>rel_text_number = 1, rel_sentence_number = 1, word_number1 = 1, word_number2 = 2,
      relation = ''det'', dep_label = ''det''\<rparr> =
     ''1'' @ [TAB] @ ''1'' @ [TAB] @ ''1'' @ [TAB] @ ''2'' @ [TAB] @ ''determiner'' @ [NL] \<and>
   count_list
     (tab_row [''TextNumber'', ''SentenceNumber'', ''WordNumber'', ''WordForm''] @
      concat (map (\<lambda>w. tab_row [str_nat (text_number w), str_nat (sentence_number w),
                                  str_nat (word_number w), word_form w])
               (word_data cat_builder))) NL = 5 \<and>
   count_list
     (tab_row [''TextNumber'', ''SentenceNumber'', ''WordNumber1'', ''WordNumber2'',
               ''Relation''] @
      concat (map (relation_row sample_explain) (relation_data cat_builder))) NL = 4"
proof -
  have paths: "path_join ''out'' ''words.txt'' = ''out/words.txt''"
    "path_join ''out'' ''relations.txt'' = ''out/relations.txt''"
    by (simp_all add: path_join_def)
  have empty: "word_data sample_builder = []" "relation_data sample_builder = []"
    by (simp_all add: sample_builder_def)
  have gloss: "sample_explain ''det'' = Some ''determiner''"
    by (simp add: sample_explain_def)
  note t1 = generate_files_rows [of sample_explain cat_builder "''out''" empty_fs]
  note t2 = generate_files_rows [of sample_explain sample_builder "''out''" empty_fs]
  note words1 = t1 [THEN conjunct1]
  note gloss1 = t1 [THEN conjunct2, THEN conjunct2, THEN conjunct1]
  note empty2 = t2 [THEN conjunct2, THEN conjunct2, THEN conjunct2, THEN conjunct2,
    THEN conjunct1]
  note lines_w = t1 [THEN conjunct2, THEN conjunct2, THEN conjunct2, THEN conjunct2,
    THEN conjunct2, THEN conjunct2, THEN conjunct1]
  note lines_r = t1 [THEN conjunct2, THEN conjunct2, THEN conjunct2, THEN conjunct2,
    THEN conjunct2, THEN conjunct2, THEN conjunct2, THEN conjunct1]
  from words1 have w: "files (generate_files sample_explain cat_builder ''out'' empty_fs)
        ''out/words.txt'' =
     Some (''TextNumber'' @ [TAB] @ ''SentenceNumber'' @ [TAB] @ ''WordNumber'' @ [TAB] @
             ''WordForm'' @ [NL] @
           ''1'' @ [TAB] @ ''1'' @ [TAB] @ ''1'' @ [TAB] @ ''The'' @ [NL] @
           ''1'' @ [TAB] @ ''1'' @ [TAB] @ ''2'' @ [TAB] @ ''cat'' @ [NL] @
           ''1'' @ [TAB] @ ''1'' @ [TAB] @ ''3'' @ [TAB] @ ''sleeps'' @ [NL] @
           ''1'' @ [TAB] @ ''1'' @ [TAB] @ ''4'' @ [TAB] @ ''.'' @ [NL])"
    by (simp add: paths cat_builder_def str_nat_small)
  from empty2 empty have e1: "files (generate_files sample_explain sample_builder ''out'' empty_fs)
        ''out/words.txt'' =
     Some (''TextNumber'' @ [TAB] @ ''SentenceNumber'' @ [TAB] @ ''WordNumber'' @ [TAB] @
             ''WordForm'' @ [NL])"
    by (simp add: paths)
  from empty2 empty have e2: "files (generate_files sample_explain sample_builder ''out'' empty_fs)
       ''out/relations.txt'' =
     Some (''TextNumber'' @ [TAB] @ ''SentenceNumber'' @ [TAB] @ ''WordNumber1'' @ [TAB] @
             ''WordNumber2'' @ [TAB] @ ''Relation'' @ [NL])"
    by (simp add: paths)
  from gloss1 gloss have g: "relation_row sample_explain
     \<lparr>rel_text_number = 1, rel_sentence_number = 1, word_number1 = 1, word_number2 = 2,
      relation = ''det'', dep_label = ''det''\<rparr> =
     ''1'' @ [TAB] @ ''1'' @ [TAB] @ ''1'' @ [TAB] @ ''2'' @ [TAB] @ ''determiner'' @ [NL]"
    by (simp add: str_nat_small)
  have clean_w: "\<forall>w \<in> set (word_data cat_builder). NL \<notin> set (word_form w)"
    by (simp add: cat_builder_def NL_def)
  have clean_r: "\<forall>r \<in> set (relation_data cat_builder). \<forall>gloss.
        sample_explain (dep_label r) = Some gloss \<longrightarrow> NL \<notin> set gloss"
    by (simp add: cat_builder_def sample_explain_def NL_def)
  from lines_w clean_w have lw: "count_list
     (tab_row [''TextNumber'', ''SentenceNumber'', ''WordNumber'', ''WordForm''] @
      concat (map (\<lambda>w. tab_row [str_nat (text_number w), str_nat (sentence_number w),
                                  str_nat (word_number w), word_form w])
               (word_data cat_builder))) NL = 1 + length (word_data cat_builder)"
    by blast
  from lines_r clean_r have lr: "count_list
     (tab_row [''TextNumber'', ''SentenceNumber'', ''WordNumber1'', ''WordNumber2'',
               ''Relation''] @
      concat (map (relation_row sample_explain) (relation_data cat_builder))) NL =
      1 + length (relation_data cat_builder)"
    by blast
  have lens: "1 + length (word_data cat_builder) = 5"
    "1 + length (relation_data cat_builder) = 4"
    by (simp_all add: cat_builder_def)
  from lw lr lens have counts: "count_list
     (tab_row [''TextNumber'', ''SentenceNumber'', ''WordNumber'', ''WordForm''] @
      concat (map (\<lambda>w. tab_row [str_nat (text_number w), str_nat (sentence_number w),
                                  str_nat (word_number w), word_form w])
               (word_data cat_builder))) NL = 5"
    "count_list
     (tab_row [''TextNumber'', ''SentenceNumber'', ''WordNumber1'', ''WordNumber2'',
               ''Relation''] @
      concat (map (relation_row sample_explain) (relation_data cat_builder))) NL = 4"
    by simp_all
  from w empty e1 e2 gloss g counts show ?thesis by (intro conjI)
qed

text \<open>
  C7 reads the last field of the line of a relation whose label has no gloss as empty.
  The line is written from \<open>f"{spacy.glossary.explain(rel['dep_label'])}"\<close>, and an
  f-string makes the text \<open>None\<close> of the value \<open>None\<close>. The label \<open>punct\<close> has no gloss in
  the sample glossary, and the line of the third relation of the sample ends with the
  field \<open>None\<close>, not with an empty field.
\<close>

theorem missing_gloss_counterexample:
  "sample_explain ''punct'' = None \<and>
   files (generate_files sample_explain cat_builder ''out'' empty_fs) ''out/relations.txt'' =
     Some (''TextNumber'' @ [TAB] @ ''SentenceNumber'' @ [TAB] @ ''WordNumber1'' @ [TAB] @
             ''WordNumber2'' @ [TAB] @ ''Relation'' @ [NL] @
           ''1'' @ [TAB] @ ''1'' @ [TAB] @ ''1'' @ [TAB] @ ''2'' @ [TAB] @ ''determiner'' @ [NL] @
           ''1'' @ [TAB] @ ''1'' @ [TAB] @ ''2'' @ [TAB] @ ''3'' @ [TAB] @
             ''nominal subject'' @ [NL] @
           ''1'' @ [TAB] @ ''1'' @ [TAB] @ ''4'' @ [TAB] @ ''3'' @ [TAB] @ ''None'' @ [NL]) \<and>
   files (generate_files sample_explain cat_builder ''out'' empty_fs) ''out/relations.txt'' \<noteq>
     Some (''TextNumber'' @ [TAB] @ ''SentenceNumber'' @ [TAB] @ ''WordNumber1'' @ [TAB] @
             ''WordNumber2'' @ [TAB] @ ''Relation'' @ [NL] @
           ''1'' @ [TAB] @ ''1'' @ [TAB] @ ''1'' @ [TAB] @ ''2'' @ [TAB] @ ''determiner'' @ [NL] @
           ''1'' @ [TAB] @ ''1'' @ [TAB] @ ''2'' @ [TAB] @ ''3'' @ [TAB] @
             ''nominal subject'' @ [NL] @
           ''1'' @ [TAB] @ ''1'' @ [TAB] @ ''4'' @ [TAB] @ ''3'' @ [TAB] @ [] @ [NL])"
proof -
  have path: "path_join ''out'' ''relations.txt'' = ''out/relations.txt''"
    by (simp add: path_join_def)
  have "files (generate_files sample_explain cat_builder ''out'' empty_fs)
      ''out/relations.txt'' =
     Some (''TextNumber'' @ [TAB] @ ''SentenceNumber'' @ [TAB] @ ''WordNumber1'' @ [TAB] @
             ''WordNumber2'' @ [TAB] @ ''Relation'' @ [NL] @
           ''1'' @ [TAB] @ ''1'' @ [TAB] @ ''1'' @ [TAB] @ ''2'' @ [TAB] @ ''determiner'' @ [NL] @
           ''1'' @ [TAB] @ ''1'' @ [TAB] @ ''2'' @ [TAB] @ ''3'' @ [TAB] @
             ''nominal subject'' @ [NL] @
           ''1'' @ [TAB] @ ''1'' @ [TAB] @ ''4'' @ [TAB] @ ''3'' @ [TAB] @ ''None'' @ [NL])"
    using generate_files_relations [of sample_explain cat_builder "''out''" empty_fs]
    by (simp add: path cat_builder_def relation_row_def sample_explain_def str_nat_small)
  then show ?thesis by (simp add: sample_explain_def NL_def)
qed

text \<open>
  C7, as the code has it. Serialization is a total function of the tables: a label
  without a gloss raises nothing. For a Relation Record whose label has no gloss, the
  line written to \<open>relations.txt\<close>, at the place of the record in the table, has the four
  numbers of the record and then the field \<open>None\<close>.
\<close>

theorem missing_gloss_rendered:
  assumes "relation_data b = pre @ r # post"
    and "explain (dep_label r) = None"
  shows "files (generate_files explain b output_dir s)
           (path_join output_dir ''relations.txt'') =
     Some (tab_row [''TextNumber'', ''SentenceNumber'', ''WordNumber1'', ''WordNumber2'',
                    ''Relation''] @
           concat (map (relation_row explain) pre) @
           tab_row [str_nat (rel_text_number r), str_nat (rel_sentence_number r),
                    str_nat (word_number1 r), str_nat (word_number2 r), ''None''] @
           concat (map (relation_row explain) post))"
proof -
  from assms(2) have "relation_row explain r =
      tab_row [str_nat (rel_text_number r), str_nat (rel_sentence_number r),
               str_nat (word_number1 r), str_nat (word_number2 r), ''None'']"
    by (simp add: relation_row_def)
  then have "concat (map (relation_row explain) (relation_data b)) =
      concat (map (relation_row explain) pre) @
      tab_row [str_nat (rel_text_number r), str_nat (rel_sentence_number r),
               str_nat (word_number1 r), str_nat (word_number2 r), ''None''] @
      concat (map (relation_row explain) post)"
    by (simp add: assms(1))
  then show ?thesis by (simp only: generate_files_relations)
qed

theorem missing_gloss_rendered_witness:
  "sample_explain ''punct'' = None \<and>
   relation_data cat_builder =
     [\<lparr>rel_text_number = 1, rel_sentence_number = 1, word_number1 = 1, word_number2 = 2,
       relation = ''det'', dep_label = ''det''\<rparr>,
      \<lparr>rel_text_number = 1, rel_sentence_number = 1, word_number1 = 2, word_number2 = 3,
       relation = ''nsubj'', dep_label = ''nsubj''\<rparr>] @
     \<lparr>rel_text_number = 1, rel_sentence_number = 1, word_number1 = 4, word_number2 = 3,
      relation = ''punct'', dep_label = ''punct''\<rparr> # [] \<and>
   files (generate_files sample_explain cat_builder ''out'' empty_fs) ''out/relations.txt'' =
     Some (''TextNumber'' @ [TAB] @ ''SentenceNumber'' @ [TAB] @ ''WordNumber1'' @ [TAB] @
             ''WordNumber2'' @ [TAB] @ ''Relation'' @ [NL] @
           ''1'' @ [TAB] @ ''1'' @ [TAB] @ ''1'' @ [TAB] @ ''2'' @ [TAB] @ ''determiner'' @ [NL] @
           ''1'' @ [TAB] @ ''1'' @ [TAB] @ ''2'' @ [TAB] @ ''3'' @ [TAB] @
             ''nominal subject'' @ [NL] @
           ''1'' @ [TAB] @ ''1'' @ [TAB] @ ''4'' @ [TAB] @ ''3'' @ [TAB] @ ''None'' @ [NL])"
proof -
  let ?r = "\<lparr>rel_text_number = 1, rel_sentence_number = 1, word_number1 = 4,
      word_number2 = 3, relation = ''punct'', dep_label = ''punct''\<rparr>"
  let ?pre = "[\<lparr>rel_text_number = 1, rel_sentence_number = 1, word_number1 = 1,
       word_number2 = 2, relation = ''det'', dep_label = ''det''\<rparr>,
      \<lparr>rel_text_number = 1, rel_sentence_number = 1, word_number1 = 2, word_number2 = 3,
       relation = ''nsubj'', dep_label = ''nsubj''\<rparr>]"
  have h1: "relation_data cat_builder = ?pre @ ?r # []" by (simp add: cat_builder_def)
  have h2: "sample_explain (dep_label ?r) = None" by (simp add: sample_explain_def)
  have path: "path_join ''out'' ''relations.txt'' = ''out/relations.txt''"
    by (simp add: path_join_def)
  from missing_gloss_rendered
    [where explain = sample_explain and b = cat_builder and pre = ?pre and r = ?r
       and post = "[]" and output_dir = "''out''" and s = empty_fs, OF h1 h2]
  have "files (generate_files sample_explain cat_builder ''out'' empty_fs)
      ''out/relations.txt'' =
     Some (''TextNumber'' @ [TAB] @ ''SentenceNumber'' @ [TAB] @ ''WordNumber1'' @ [TAB] @
             ''WordNumber2'' @ [TAB] @ ''Relation'' @ [NL] @
           ''1'' @ [TAB] @ ''1'' @ [TAB] @ ''1'' @ [TAB] @ ''2'' @ [TAB] @ ''determiner'' @ [NL] @
           ''1'' @ [TAB] @ ''1'' @ [TAB] @ ''2'' @ [TAB] @ ''3'' @ [TAB] @
             ''nominal subject'' @ [NL] @
           ''1'' @ [TAB] @ ''1'' @ [TAB] @ ''4'' @ [TAB] @ ''3'' @ [TAB] @ ''None'' @ [NL])"
    by (simp add: path relation_row_def sample_explain_def str_nat_small)
  with h1 h2 show ?thesis by simp
qed

section \<open>Unsupported languages\<close>

lemma supported_language: "map_of model_name_map lang = None \<longleftrightarrow> lang \<noteq> ''uk''"
  by (simp add: model_name_map_def)

lemma load_language_model_unsupported:
  "map_of model_name_map lang = None \<Longrightarrow>
     load_language_model e lang =
       (Inl (ValueError (''Unsupported language: '' @ lang)), e, [])"
  by (simp add: load_language_model_def)

lemma load_language_model_supported:
  "map_of model_name_map lang = Some model_name \<Longrightarrow>
     fst (load_language_model e lang) \<noteq> Inl (ValueError msg) \<and>
     hd (snd (snd (load_language_model e lang))) = Load model_name"
  by (auto simp: load_language_model_def Let_def split: option.splits)

text \<open>
  C8. A language code that is no key of \<open>model_name_map\<close> (any code but \<open>uk\<close>) makes the
  construction fail with \<open>ValueError\<close>, whose message is \<open>Unsupported language: \<close> followed
  by the code; no call to the model loader or to the download has been made, the
  environment is unchanged and no instance exists, so nothing can be processed. For the
  supported code the construction raises no \<open>ValueError\<close>, its first call is the load of
  the model, and an instance it returns has the language and two empty tables.
\<close>

theorem unsupported_language_rejected:
  "(map_of model_name_map lang = None \<longleftrightarrow> lang \<noteq> ''uk'') \<and>
   (map_of model_name_map lang = None \<longrightarrow>
      init e lang = (Inl (ValueError (''Unsupported language: '' @ lang)), e, [])) \<and>
   (map_of model_name_map lang \<noteq> None \<longrightarrow>
      (\<forall>msg. fst (init e lang) \<noteq> Inl (ValueError msg)) \<and>
      hd (snd (snd (init e lang))) = Load ''uk_core_news_lg'' \<and>
      (\<forall>b. fst (init e lang) = Inr b \<longrightarrow>
         language b = lang \<and> word_data b = [] \<and> relation_data b = []))"
proof (intro conjI impI allI)
  show "map_of model_name_map lang = None \<longleftrightarrow> lang \<noteq> ''uk''"
    by (rule supported_language)
next
  assume "map_of model_name_map lang = None"
  then show "init e lang = (Inl (ValueError (''Unsupported language: '' @ lang)), e, [])"
    by (simp add: init_def load_language_model_unsupported)
next
  fix msg
  assume "map_of model_name_map lang \<noteq> None"
  then obtain m where m: "map_of model_name_map lang = Some m" by auto
  obtain res e' calls where l: "load_language_model e lang = (res, e', calls)"
    by (cases "load_language_model e lang")
  from load_language_model_supported [OF m, of e msg] l
  have "res \<noteq> Inl (ValueError msg)" by simp
  then show "fst (init e lang) \<noteq> Inl (ValueError msg)"
    by (cases res) (simp_all add: init_def l)
next
  assume "map_of model_name_map lang \<noteq> None"
  then have m: "map_of model_name_map lang = Some ''uk_core_news_lg''"
    by (auto simp: model_name_map_def split: if_splits)
  obtain res e' calls where l: "load_language_model e lang = (res, e', calls)"
    by (cases "load_language_model e lang")
  from load_language_model_supported [OF m, of e "[]"] l
  have "hd calls = Load ''uk_core_news_lg''" by simp
  then show "hd (snd (snd (init e lang))) = Load ''uk_core_news_lg''"
    by (cases res) (simp_all add: init_def l)
next
  fix b
  assume "fst (init e lang) = Inr b"
  then have "language b = lang \<and> word_data b = [] \<and> relation_data b = []"
    by (auto simp: init_def split: prod.splits sum.splits)
  then show "language b = lang" "word_data b = []" "relation_data b = []" by simp_all
qed

theorem unsupported_language_rejected_witness:
  "map_of model_name_map ''en'' = None \<and>
   init sample_env ''en'' = (Inl (ValueError ''Unsupported language: en''), sample_env, []) \<and>
   map_of model_name_map ''uk'' \<noteq> None \<and>
   fst (init sample_env ''uk'') \<noteq> Inl (ValueError ''Unsupported language: uk'') \<and>
   init sample_env ''uk'' = (Inr sample_builder, sample_env, [Load ''uk_core_news_lg''])"
proof -
  have h1: "map_of model_name_map ''en'' = None" by (simp add: model_name_map_def)
  have h2: "map_of model_name_map ''uk'' \<noteq> None" by (simp add: model_name_map_def)
  from unsupported_language_rejected [of "''en''" sample_env] h1
  have a: "init sample_env ''en'' =
      (Inl (ValueError ''Unsupported language: en''), sample_env, [])"
    by simp
  from unsupported_language_rejected [of "''uk''" sample_env] h2
  have b: "fst (init sample_env ''uk'') \<noteq> Inl (ValueError ''Unsupported language: uk'')"
    by blast
  have c: "init sample_env ''uk'' = (Inr sample_builder, sample_env, [Load ''uk_core_news_lg''])"
    by (simp add: init_def load_language_model_def model_name_map_def sample_env_def
        sample_builder_def)
  from h1 a h2 b c show ?thesis by blast
qed

end
